theory Spec2Isabelle
  imports Main "HOL-Library.Word"
begin

unbundle bit_operations_syntax

section \<open>Block serialization (package dvid: SerializeData, DeserializeData)\<close>

type_synonym byte = "8 word"

text \<open>
  Errors of the Go code are values.  Every \<open>fmt.Errorf\<close>, every error handed back by a
  library call and every run-time panic of the modelled functions is one constructor.
\<close>

datatype error =
    EOF
  | ErrUnexpectedEOF
  | IllegalCompression
  | IllegalChecksum
  | BadChecksum
  | SnappyCorrupt
  | IllegalGeometry
  | TooManyVoxels
  | UnexpectedImageType
  | TooLittleData
  | TooManyDims
  | BadKey
  | Unsupported2dInNd
  | UnsupportedShape
  | SliceOutOfRange
  | IndexOutOfRange
  | NegativeLength

text \<open>
  \<open>const ( Uncompressed Compression = 0; Snappy = 1 << iota )\<close>: the second line of a
  Go constant block has \<open>iota = 1\<close>, so \<open>Snappy\<close> is \<open>1 << 1\<close>.  The checksum block is
  written the same way.
\<close>

definition Uncompressed :: "8 word" where
  "Uncompressed = 0"

definition Snappy :: "8 word" where
  "Snappy = push_bit (1::nat) 1"

definition NoChecksum :: "8 word" where
  "NoChecksum = 0"

definition CRC32 :: "8 word" where
  "CRC32 = push_bit (1::nat) 1"

definition EncodeSerializationFormat :: "8 word \<Rightarrow> 8 word \<Rightarrow> 8 word" where
  "EncodeSerializationFormat compress checksum =
     (let a = push_bit 4 (compress AND 0x0F);
          b = checksum AND 0x0F
      in a OR b)"

definition DecodeSerializationFormat :: "8 word \<Rightarrow> 8 word \<times> 8 word" where
  "DecodeSerializationFormat s = (drop_bit 4 s, s AND 0x0F)"

subsection \<open>Library functions the serializer calls\<close>

text \<open>
  \<open>hash/crc32.ChecksumIEEE\<close> is the standard CRC-32 (reflected polynomial
  \<open>0xEDB88320\<close>, initial value and final complement \<open>0xFFFFFFFF\<close>).  The running
  value is a number below \<open>2^32\<close>; a byte is folded in by an exclusive or and eight
  shift steps.
\<close>

definition crc32_shift :: "nat \<Rightarrow> nat" where
  "crc32_shift c = (if odd c then (c div 2) XOR 0xEDB88320 else c div 2)"

definition crc32_byte :: "nat \<Rightarrow> byte \<Rightarrow> nat" where
  "crc32_byte c b =
     crc32_shift (crc32_shift (crc32_shift (crc32_shift
       (crc32_shift (crc32_shift (crc32_shift (crc32_shift (c XOR unat b))))))))"

definition ChecksumIEEE :: "byte list \<Rightarrow> 32 word" where
  "ChecksumIEEE bs = of_nat (foldl crc32_byte 0xFFFFFFFF bs XOR 0xFFFFFFFF)"

text \<open>\<open>binary.Write(&buffer, binary.LittleEndian, crcChecksum)\<close> for a \<open>uint32\<close>.\<close>

definition le32 :: "32 word \<Rightarrow> byte list" where
  "le32 w = [ucast w, ucast (drop_bit 8 w), ucast (drop_bit 16 w), ucast (drop_bit 24 w)]"

text \<open>
  \<open>binary.Read(buffer, binary.LittleEndian, &storedCrc32)\<close>: four bytes are taken from
  the buffer; an empty buffer gives \<open>io.EOF\<close>, one to three bytes give
  \<open>io.ErrUnexpectedEOF\<close>.  The result is the value and the rest of the buffer.
\<close>

fun read_le32 :: "byte list \<Rightarrow> error + (32 word \<times> byte list)" where
  "read_le32 (b0 # b1 # b2 # b3 # rest) =
     Inr (ucast b0 OR push_bit 8 (ucast b1) OR push_bit 16 (ucast b2) OR push_bit 24 (ucast b3),
          rest)"
| "read_le32 [] = Inl EOF"
| "read_le32 _ = Inl ErrUnexpectedEOF"

text \<open>
  The snappy package (\<open>snappy.Encode\<close>, \<open>snappy.Decode\<close>) is an external library.  The
  serializer takes both functions as parameters.
\<close>

record snappy =
  Encode :: "byte list \<Rightarrow> error + byte list"
  Decode :: "byte list \<Rightarrow> error + byte list"

subsection \<open>SerializeData and DeserializeData\<close>

definition SerializeData :: "snappy \<Rightarrow> byte list \<Rightarrow> 8 word \<Rightarrow> 8 word \<Rightarrow> error + byte list" where
  "SerializeData lib data compress checksum =
     (let format = EncodeSerializationFormat compress checksum;
          buffer = [format]
      in case (if compress = Uncompressed then Inr data
               else if compress = Snappy then Encode lib data
               else Inl IllegalCompression) of
           Inl err \<Rightarrow> Inl err
         | Inr byteData \<Rightarrow>
             (if checksum = NoChecksum then Inr (buffer @ byteData)
              else if checksum = CRC32 then Inr (buffer @ le32 (ChecksumIEEE byteData) @ byteData)
              else Inl IllegalChecksum))"

text \<open>
  \<open>DeserializeData\<close> returns the triple \<open>(data, compress, err)\<close> of its named results;
  \<open>err = nil\<close> is \<open>None\<close> and a nil slice is the empty list.  The variable \<open>err\<close> is
  assigned in sequence, as in the source: the checksum comparison sets it, and the
  assignment \<open>data, err = snappy.Decode(nil, data)\<close> that follows sets it again.
\<close>

definition DeserializeData :: "snappy \<Rightarrow> byte list \<Rightarrow> bool \<Rightarrow> byte list \<times> 8 word \<times> error option" where
  "DeserializeData lib s uncompress =
     (case s of
        [] \<Rightarrow> ([], 0, Some EOF)
      | format # buffer \<Rightarrow>
          (case DecodeSerializationFormat format of (compress, checksum) \<Rightarrow>
            (case (if checksum = NoChecksum then Inr (0, buffer)
                   else if checksum = CRC32 then read_le32 buffer
                   else Inl IllegalChecksum) of
               Inl err \<Rightarrow> ([], compress, Some err)
             | Inr (storedCrc32, data) \<Rightarrow>
                 (let err = (if checksum = CRC32 \<and> ChecksumIEEE data \<noteq> storedCrc32
                             then Some BadChecksum else None)
                  in if uncompress then
                       (if compress = Uncompressed then (data, compress, err)
                        else if compress = Snappy then
                          (case Decode lib data of
                             Inl err' \<Rightarrow> ([], compress, Some err')
                           | Inr data' \<Rightarrow> (data', compress, None))
                        else (data, compress, Some IllegalCompression))
                     else (data, compress, err)))))"

subsection \<open>A snappy codec for concrete runs\<close>

text \<open>
  The snappy block format is a varint of the uncompressed length followed by elements.
  A literal element of \<open>n \<le> 60\<close> bytes is the tag byte \<open>(n - 1) << 2\<close> followed by the
  bytes.  The encoder below emits literal elements only, which every snappy decoder
  accepts; for an input of at most four bytes it is what \<open>snappy.Encode\<close> emits.  The
  decoder below reads the length and such literal elements and reports every other
  element as corrupt.
\<close>

fun uvarint :: "nat \<Rightarrow> byte list" where
  "uvarint n = (if n < 128 then [of_nat n] else of_nat (n mod 128 + 128) # uvarint (n div 128))"

fun read_uvarint :: "nat \<Rightarrow> byte list \<Rightarrow> (nat \<times> byte list) option" where
  "read_uvarint sh [] = None"
| "read_uvarint sh (b # bs) =
     (if b < 128 then Some (unat b * 2 ^ sh, bs)
      else (case read_uvarint (sh + 7) bs of
              None \<Rightarrow> None
            | Some (v, rest) \<Rightarrow> Some ((unat b - 128) * 2 ^ sh + v, rest)))"

fun emitLiterals :: "nat \<Rightarrow> byte list \<Rightarrow> byte list" where
  "emitLiterals 0 src = []"
| "emitLiterals (Suc fuel) src =
     (if src = [] then []
      else (let n = min 60 (length src)
            in of_nat ((n - 1) * 4) # take n src @ emitLiterals fuel (drop n src)))"

definition lit_Encode :: "byte list \<Rightarrow> error + byte list" where
  "lit_Encode src = Inr (uvarint (length src) @ emitLiterals (length src) src)"

fun readLiterals :: "byte list \<Rightarrow> byte list option" where
  "readLiterals [] = Some []"
| "readLiterals (tag # src) =
     (let n = unat (drop_bit 2 tag) + 1
      in if tag AND 3 \<noteq> 0 \<or> 60 < n \<or> length src < n then None
         else (case readLiterals (drop n src) of
                 None \<Rightarrow> None
               | Some out \<Rightarrow> Some (take n src @ out)))"

definition lit_Decode :: "byte list \<Rightarrow> error + byte list" where
  "lit_Decode src =
     (case read_uvarint 0 src of
        None \<Rightarrow> Inl SnappyCorrupt
      | Some (dLen, body) \<Rightarrow>
          (case readLiterals body of
             None \<Rightarrow> Inl SnappyCorrupt
           | Some out \<Rightarrow> if length out = dLen then Inr out else Inl SnappyCorrupt))"

definition lit_snappy :: snappy where
  "lit_snappy = \<lparr> Encode = lit_Encode, Decode = lit_Decode \<rparr>"


section \<open>Machine integers\<close>

text \<open>
  Coordinates, strides and byte offsets of the Go code are \<open>int32\<close>, voxel counts are
  \<open>int64\<close>.  They are modelled as integers; \<open>i32\<close> and \<open>i64\<close> are the two's-complement
  wrap-around, applied to the result of every arithmetic expression of the source.
\<close>

definition i32 :: "int \<Rightarrow> int" where
  "i32 x = signed_take_bit 31 x"


section \<open>Points and geometry (package dvid)\<close>

type_synonym Point = "int list"

definition NumDims :: "Point \<Rightarrow> nat" where
  "NumDims p = length p"

definition Value :: "Point \<Rightarrow> nat \<Rightarrow> int" where
  "Value p d = p ! d"

text \<open>
  Modelled from the spec: the methods \<open>Min\<close>, \<open>Max\<close>, \<open>Sub\<close> and \<open>Add\<close> of \<open>dvid.Point\<close>
  are declared outside the source files at hand.  The spec takes minimum, maximum and
  difference component-wise, on integers, and says of the flag that it is true iff a
  bound was strictly extended: the flag tells whether the result differs from the
  receiver.
\<close>

definition Point_Min :: "Point \<Rightarrow> Point \<Rightarrow> Point \<times> bool" where
  "Point_Min p x = (map2 min p x, map2 min p x \<noteq> p)"

definition Point_Max :: "Point \<Rightarrow> Point \<Rightarrow> Point \<times> bool" where
  "Point_Max p x = (map2 max p x, map2 max p x \<noteq> p)"

definition Point_Sub :: "Point \<Rightarrow> Point \<Rightarrow> Point" where
  "Point_Sub p x = map2 (\<lambda>a b. a - b) p x"

definition Point_Add :: "Point \<Rightarrow> Point \<Rightarrow> Point" where
  "Point_Add p x = map2 (\<lambda>a b. a + b) p x"

record DataShape =
  dims :: nat
  shape :: "nat list"

definition XY :: DataShape where
  "XY = \<lparr> dims = 3, shape = [0, 1] \<rparr>"

definition XZ :: DataShape where
  "XZ = \<lparr> dims = 3, shape = [0, 2] \<rparr>"

definition YZ :: DataShape where
  "YZ = \<lparr> dims = 3, shape = [1, 2] \<rparr>"

definition Arb :: DataShape where
  "Arb = \<lparr> dims = 3, shape = [] \<rparr>"

definition Vol3d :: DataShape where
  "Vol3d = \<lparr> dims = 3, shape = [0, 1, 2] \<rparr>"

definition ShapeDimensions :: "DataShape \<Rightarrow> nat" where
  "ShapeDimensions s = length (shape s)"

text \<open>
  \<open>Equals\<close> compares \<open>dims\<close> and the lengths, then walks the receiver's \<open>shape\<close> and
  returns false at the first difference.
\<close>

fun shape_loop :: "nat list \<Rightarrow> nat list \<Rightarrow> bool" where
  "shape_loop (dim # s) (d2 # s2) = (if d2 \<noteq> dim then False else shape_loop s s2)"
| "shape_loop _ _ = True"

definition Equals :: "DataShape \<Rightarrow> DataShape \<Rightarrow> bool" where
  "Equals s s2 =
     (if dims s = dims s2 \<and> length (shape s) = length (shape s2)
      then shape_loop (shape s) (shape s2) else False)"

text \<open>
  The two implementations of the \<open>Geometry\<close> interface.  A \<open>Subvolume\<close> has a shape, an
  offset and a size; an \<open>OrthogSlice\<close> has a shape, an offset, a two-dimensional size
  and the end point that \<open>NewOrthogSlice\<close> stored (the offset with the two axes of the
  slice moved to \<open>offset + size - 1\<close>).
\<close>

datatype Geometry =
    Subvolume DataShape Point Point
  | OrthogSlice DataShape Point "int \<times> int" Point

fun Geometry_DataShape :: "Geometry \<Rightarrow> DataShape" where
  "Geometry_DataShape (Subvolume s offset sz) = Vol3d"
| "Geometry_DataShape (OrthogSlice s offset sz endPoint) = s"

fun Size :: "Geometry \<Rightarrow> Point" where
  "Size (Subvolume s offset sz) = sz"
| "Size (OrthogSlice s offset sz endPoint) = [fst sz, snd sz]"

fun StartPoint :: "Geometry \<Rightarrow> Point" where
  "StartPoint (Subvolume s offset sz) = offset"
| "StartPoint (OrthogSlice s offset sz endPoint) = offset"

fun EndPoint :: "Geometry \<Rightarrow> Point" where
  "EndPoint (Subvolume s offset sz) = Point_Add offset (Point_Sub sz [1, 1, 1])"
| "EndPoint (OrthogSlice s offset sz endPoint) = endPoint"


section \<open>Voxel values and extents (package voxels)\<close>

record DataValue =
  DataType :: string
  Label :: string

type_synonym DataValues = "DataValue list"

definition typeBytes :: "string \<Rightarrow> int" where
  "typeBytes t =
     (if t = ''uint8'' then 1 else if t = ''int8'' then 1
      else if t = ''uint16'' then 2 else if t = ''int16'' then 2
      else if t = ''uint32'' then 4 else if t = ''int32'' then 4
      else if t = ''uint64'' then 8 else if t = ''int64'' then 8
      else if t = ''float32'' then 4 else if t = ''float64'' then 8
      else 0)"

definition BytesPerVoxel :: "DataValues \<Rightarrow> int" where
  "BytesPerVoxel vs = foldl (\<lambda>bytes dataValue. i32 (bytes + typeBytes (DataType dataValue))) 0 vs"

record Extents =
  MinPoint :: "Point option"
  MaxPoint :: "Point option"
  MinIndex :: "Point option"
  MaxIndex :: "Point option"

text \<open>
  \<open>AdjustPoints\<close> and \<open>AdjustIndices\<close> return the variable \<open>changed\<close> and update the
  extents.  Both branches of the first \<open>if\<close> assign \<open>changed\<close>, and so do both branches
  of the second.
\<close>

definition AdjustPoints :: "Extents \<Rightarrow> Point \<Rightarrow> Point \<Rightarrow> bool \<times> Extents" where
  "AdjustPoints ext pointBeg pointEnd =
     (let (minPoint, changed) =
            (case MinPoint ext of None \<Rightarrow> (pointBeg, True) | Some m \<Rightarrow> Point_Min m pointBeg);
          (maxPoint, changed) =
            (case MaxPoint ext of None \<Rightarrow> (pointEnd, True) | Some m \<Rightarrow> Point_Max m pointEnd)
      in (changed, ext\<lparr> MinPoint := Some minPoint, MaxPoint := Some maxPoint \<rparr>))"

definition AdjustIndices :: "Extents \<Rightarrow> Point \<Rightarrow> Point \<Rightarrow> bool \<times> Extents" where
  "AdjustIndices ext indexBeg indexEnd =
     (let (minIndex, changed) =
            (case MinIndex ext of None \<Rightarrow> (indexBeg, True) | Some m \<Rightarrow> Point_Min m indexBeg);
          (maxIndex, changed) =
            (case MaxIndex ext of None \<Rightarrow> (indexEnd, True) | Some m \<Rightarrow> Point_Max m indexEnd)
      in (changed, ext\<lparr> MinIndex := Some minIndex, MaxIndex := Some maxIndex \<rparr>))"

section \<open>External voxels (ExtHandler) and NewExtHandler\<close>

record Voxels =
  Geometry :: Geometry
  vals :: DataValues
  data :: "byte list"
  stride :: int
  byteOrder :: bool




section \<open>Version mutexes (package datastore)\<close>

record DataID =
  ID :: "16 word"
  DsetID :: "16 word"

record nodeID =
  Dataset :: "16 word"
  Data :: "16 word"
  Version :: "16 word"

text \<open>
  The global \<open>versionMutexes\<close> maps a \<open>nodeID\<close> to a pointer to a mutex.  A pointer is
  a number; \<open>new(sync.Mutex)\<close> returns the next one not yet handed out.  The state is
  the map and the count of pointers handed out.
\<close>

record mutexes =
  versionMutexes :: "nodeID \<rightharpoonup> nat"
  allocated :: nat

definition init_mutexes :: mutexes where
  "init_mutexes = \<lparr> versionMutexes = Map.empty, allocated = 0 \<rparr>"

definition VersionMutex :: "DataID \<Rightarrow> 16 word \<Rightarrow> mutexes \<Rightarrow> nat \<times> mutexes" where
  "VersionMutex d versionID st =
     (let id = \<lparr> Dataset = DsetID d, Data = ID d, Version = versionID \<rparr>
      in case versionMutexes st id of
           Some vmutex \<Rightarrow> (vmutex, st)
         | None \<Rightarrow>
             (let vmutex = allocated st
              in (vmutex, st\<lparr> versionMutexes := (versionMutexes st)(id \<mapsto> vmutex),
                               allocated := Suc (allocated st) \<rparr>)))"

text \<open>A sequence of calls, each on the state the previous one left.\<close>

fun VersionMutex_calls :: "(DataID \<times> 16 word) list \<Rightarrow> mutexes \<Rightarrow> nat list \<times> mutexes" where
  "VersionMutex_calls [] st = ([], st)"
| "VersionMutex_calls (c # cs) st =
     (case VersionMutex (fst c) (snd c) st of
        (m, st') \<Rightarrow> (case VersionMutex_calls cs st' of (ms, st'') \<Rightarrow> (m # ms, st'')))"

definition triple :: "DataID \<times> 16 word \<Rightarrow> 16 word \<times> 16 word \<times> 16 word" where
  "triple c = (DsetID (fst c), ID (fst c), snd c)"

text \<open>The \<open>nodeID\<close> a call builds from its receiver and argument.\<close>

definition nid :: "DataID \<times> 16 word \<Rightarrow> nodeID" where
  "nid c = \<lparr> Dataset = DsetID (fst c), Data = ID (fst c), Version = snd c \<rparr>"

text \<open>
  What holds of the map in every state the calls reach: a stored pointer has been
  handed out, and no pointer is stored under two keys.
\<close>

definition mutexes_ok :: "mutexes \<Rightarrow> bool" where
  "mutexes_ok st \<longleftrightarrow>
     (\<forall>k m. versionMutexes st k = Some m \<longrightarrow> m < allocated st)
     \<and> (\<forall>k k' m. versionMutexes st k = Some m \<and> versionMutexes st k' = Some m \<longrightarrow> k = k')"

section \<open>Transfer between a view and a block (package voxels)\<close>

datatype OpType = GetOp | PutOp

text \<open>
  A block is a key and a value.  The key of a voxel block is a \<open>DataKey\<close> of dataset,
  data and version identifiers and the block coordinate; any other key is \<open>OtherKey\<close>.
\<close>

datatype Key = DataKey "16 word" "16 word" "16 word" Point | OtherKey

record Block =
  K :: Key
  V :: "byte list"

text \<open>
  Modelled from the spec: \<open>datastore.KeyToPointIndexer\<close> and the methods \<open>FirstPoint\<close>
  and \<open>LastPoint\<close> of the index are declared outside the source files at hand.  The
  spec splits a key into header and index and fails on a malformed key, and gives
  \<open>minBlockVoxel = blockCoord \<times> blockSize\<close> and
  \<open>maxBlockVoxel = minBlockVoxel + blockSize - 1\<close>.
\<close>

fun KeyToPointIndexer :: "Key \<Rightarrow> error + Point" where
  "KeyToPointIndexer (DataKey dset dat ver index) = Inr index"
| "KeyToPointIndexer OtherKey = Inl BadKey"

definition FirstPoint :: "Point \<Rightarrow> Point \<Rightarrow> Point" where
  "FirstPoint ptIndex blockSize = map2 (\<lambda>c n. c * n) ptIndex blockSize"

definition LastPoint :: "Point \<Rightarrow> Point \<Rightarrow> Point" where
  "LastPoint ptIndex blockSize = map2 (\<lambda>c n. c * n + n - 1) ptIndex blockSize"

record OpBounds =
  blockBeg :: Point
  dataBeg :: Point
  dataEnd :: Point

text \<open>
  \<open>ComputeTransform\<close>.  The point methods it calls work on points of one
  dimensionality (each asserts the type of its argument and panics otherwise); the
  model reports that panic before any of them is applied.
\<close>

definition ComputeTransform :: "Voxels \<Rightarrow> Block \<Rightarrow> Point \<Rightarrow> error + OpBounds" where
  "ComputeTransform v block blockSize =
     (case KeyToPointIndexer (K block) of
        Inl err \<Rightarrow> Inl err
      | Inr ptIndex \<Rightarrow>
          if NumDims ptIndex \<noteq> NumDims blockSize
             \<or> NumDims (StartPoint (Geometry v)) \<noteq> NumDims blockSize
             \<or> NumDims (EndPoint (Geometry v)) \<noteq> NumDims blockSize
          then Inl IndexOutOfRange
          else
            (let minBlockVoxel = FirstPoint ptIndex blockSize;
                 maxBlockVoxel = LastPoint ptIndex blockSize;
                 minDataVoxel = StartPoint (Geometry v);
                 maxDataVoxel = EndPoint (Geometry v);
                 begVolCoord = fst (Point_Max minDataVoxel minBlockVoxel);
                 endVolCoord = fst (Point_Min maxDataVoxel maxBlockVoxel);
                 dataBeg = Point_Sub begVolCoord (StartPoint (Geometry v));
                 dataEnd = Point_Sub endVolCoord (StartPoint (Geometry v));
                 blockBeg = Point_Sub begVolCoord minBlockVoxel
             in Inr \<lparr> blockBeg = blockBeg, dataBeg = dataBeg, dataEnd = dataEnd \<rparr>))"

text \<open>
  \<open>copy(dst[dlo:dhi], src[slo:shi])\<close>.  A slice expression panics unless
  \<open>0 \<le> lo \<le> hi \<le> cap\<close> (the buffers here have capacity equal to length); \<open>copy\<close>
  moves as many bytes as the shorter slice has.  The result is the panic, if any, and
  the destination buffer after the call.
\<close>

definition slice_ok :: "byte list \<Rightarrow> int \<Rightarrow> int \<Rightarrow> bool" where
  "slice_ok xs lo hi \<longleftrightarrow> 0 \<le> lo \<and> lo \<le> hi \<and> hi \<le> int (length xs)"

definition go_copy :: "byte list \<Rightarrow> int \<Rightarrow> int \<Rightarrow> byte list \<Rightarrow> int \<Rightarrow> int \<Rightarrow> error option \<times> byte list" where
  "go_copy dst dlo dhi src slo shi =
     (if slice_ok dst dlo dhi \<and> slice_ok src slo shi then
        (let n = nat (min (dhi - dlo) (shi - slo))
         in (None, take (nat dlo) dst @ take n (drop (nat slo) src) @ drop (nat dlo + n) dst))
      else (Some SliceOutOfRange, dst))"

text \<open>
  \<open>for y := beg; y <= end; y++ { body }\<close>: the body runs for every \<open>y\<close> of
  \<open>[beg..end]\<close> in order on the state the previous run left, and a panic stops the
  loop with the state at that moment.
\<close>

fun forE :: "int list \<Rightarrow> (int \<Rightarrow> 's \<Rightarrow> error option \<times> 's) \<Rightarrow> 's \<Rightarrow> error option \<times> 's" where
  "forE [] body s = (None, s)"
| "forE (y # ys) body s =
     (case body y s of
        (Some err, s') \<Rightarrow> (Some err, s')
      | (None, s') \<Rightarrow> forE ys body s')"

text \<open>
  The loop bodies.  The state of a row loop is \<open>(blockI, dataI, data, block.V)\<close>.
  The \<open>GetOp\<close> body of the XY, XZ and YZ cases is
  \<open>copy(data[dataI:dataI+bytes], block.V[blockI:blockI+bytes])\<close>, the \<open>PutOp\<close> body is
  \<open>copy(block.V[blockI:blockI+bytes], data[dataI:dataI+bytes])\<close>; both then advance
  \<open>blockI\<close> and \<open>dataI\<close>.
\<close>

type_synonym rowstate = "int \<times> int \<times> byte list \<times> byte list"

fun row_get :: "int \<Rightarrow> int \<Rightarrow> int \<Rightarrow> int \<Rightarrow> rowstate \<Rightarrow> error option \<times> rowstate" where
  "row_get bytes bStep dStep y (blockI, dataI, dat, blockV) =
     (case go_copy dat dataI (i32 (dataI + bytes)) blockV blockI (i32 (blockI + bytes)) of
        (Some err, dat') \<Rightarrow> (Some err, (blockI, dataI, dat', blockV))
      | (None, dat') \<Rightarrow> (None, (i32 (blockI + bStep), i32 (dataI + dStep), dat', blockV)))"

fun row_put :: "int \<Rightarrow> int \<Rightarrow> int \<Rightarrow> int \<Rightarrow> rowstate \<Rightarrow> error option \<times> rowstate" where
  "row_put bytes bStep dStep y (blockI, dataI, dat, blockV) =
     (case go_copy blockV blockI (i32 (blockI + bytes)) dat dataI (i32 (dataI + bytes)) of
        (Some err, blockV') \<Rightarrow> (Some err, (blockI, dataI, dat, blockV'))
      | (None, blockV') \<Rightarrow> (None, (i32 (blockI + bStep), i32 (dataI + dStep), dat, blockV')))"

definition rows :: "OpType \<Rightarrow> int \<Rightarrow> int \<Rightarrow> int \<Rightarrow> int \<Rightarrow> int \<Rightarrow> int \<Rightarrow> int
    \<Rightarrow> byte list \<times> byte list \<Rightarrow> error option \<times> (byte list \<times> byte list)" where
  "rows op beg end bytes bStep dStep blockI dataI bufs =
     (case forE [beg..end]
             (case op of GetOp \<Rightarrow> row_get bytes bStep dStep | PutOp \<Rightarrow> row_put bytes bStep dStep)
             (blockI, dataI, fst bufs, snd bufs) of
        (err, (blockI', dataI', dat', blockV')) \<Rightarrow> (err, (dat', blockV')))"

text \<open>
  The YZ case: for every \<open>y\<close> of the outer loop the inner loop copies one voxel at a
  time, and \<open>bz\<close> is advanced.  The state of the outer loop is \<open>(bz, data, block.V)\<close>.
\<close>

type_synonym planestate = "int \<times> byte list \<times> byte list"

fun YZ_body :: "OpType \<Rightarrow> int \<Rightarrow> int \<Rightarrow> int \<Rightarrow> int \<Rightarrow> Point \<Rightarrow> Point \<Rightarrow> Point
    \<Rightarrow> int \<Rightarrow> planestate \<Rightarrow> error option \<times> planestate" where
  "YZ_body op bytesPerVoxel bX bY dX bBeg dBeg dEnd y (bz, dat, blockV) =
     (let blockI = i32 (bz * bY + Value bBeg 1 * bX + Value bBeg 0 * bytesPerVoxel);
          dataI = i32 (y * dX + Value dBeg 1 * bytesPerVoxel)
      in case rows op (Value dBeg 1) (Value dEnd 1) bytesPerVoxel bX bytesPerVoxel
                blockI dataI (dat, blockV) of
           (Some err, (dat', blockV')) \<Rightarrow> (Some err, (bz, dat', blockV'))
         | (None, (dat', blockV')) \<Rightarrow> (None, (i32 (bz + 1), dat', blockV')))"

text \<open>
  The Vol3d case.  Its \<open>GetOp\<close> body is
  \<open>copy(block.V[blockI:blockI+bytes], data[dataI:dataI+bytes])\<close> and its \<open>PutOp\<close> body
  is \<open>copy(data[dataI:dataI+bytes], block.V[blockI:blockI+bytes])\<close>, as the source has
  them.  The state of the inner loop is \<open>(blockY, data, block.V)\<close>, that of the outer
  loop \<open>(blockZ, data, block.V)\<close>.
\<close>

fun Vol3d_inner :: "OpType \<Rightarrow> int \<Rightarrow> int \<Rightarrow> int \<Rightarrow> int \<Rightarrow> int \<Rightarrow> int \<Rightarrow> int \<Rightarrow> int \<Rightarrow> int
    \<Rightarrow> int \<Rightarrow> planestate \<Rightarrow> error option \<times> planestate" where
  "Vol3d_inner op bX bY dX dY blockOffset dataOffset bytes blockZ dataZ dataY (blockY, dat, blockV) =
     (let blockI = i32 (blockZ * bY + blockY * bX + blockOffset);
          dataI = i32 (dataZ * dY + dataY * dX + dataOffset)
      in case op of
           GetOp \<Rightarrow>
             (case go_copy blockV blockI (i32 (blockI + bytes)) dat dataI (i32 (dataI + bytes)) of
                (Some err, blockV') \<Rightarrow> (Some err, (blockY, dat, blockV'))
              | (None, blockV') \<Rightarrow> (None, (i32 (blockY + 1), dat, blockV')))
         | PutOp \<Rightarrow>
             (case go_copy dat dataI (i32 (dataI + bytes)) blockV blockI (i32 (blockI + bytes)) of
                (Some err, dat') \<Rightarrow> (Some err, (blockY, dat', blockV))
              | (None, dat') \<Rightarrow> (None, (i32 (blockY + 1), dat', blockV))))"

fun Vol3d_body :: "OpType \<Rightarrow> int \<Rightarrow> int \<Rightarrow> int \<Rightarrow> int \<Rightarrow> int \<Rightarrow> int \<Rightarrow> int \<Rightarrow> Point \<Rightarrow> Point \<Rightarrow> Point
    \<Rightarrow> int \<Rightarrow> planestate \<Rightarrow> error option \<times> planestate" where
  "Vol3d_body op bX bY dX dY blockOffset dataOffset bytes bBeg dBeg dEnd dataZ (blockZ, dat, blockV) =
     (let blockY = Value bBeg 1
      in case forE [Value dBeg 1..Value dEnd 1]
                (Vol3d_inner op bX bY dX dY blockOffset dataOffset bytes blockZ dataZ)
                (blockY, dat, blockV) of
           (Some err, (blockY', dat', blockV')) \<Rightarrow> (Some err, (blockZ, dat', blockV'))
         | (None, (blockY', dat', blockV')) \<Rightarrow> (None, (i32 (blockZ + 1), dat', blockV')))"

text \<open>
  \<open>transferBlock\<close> (its locals \<open>blockBeg\<close>, \<open>dataBeg\<close> and \<open>dataEnd\<close> are \<open>bBeg\<close>,
  \<open>dBeg\<close> and \<open>dEnd\<close> here) changes the view's buffer and the block's buffer in place; the model
  returns the error, if any, and both after the call.  \<open>Value(d)\<close> on a point with
  fewer than \<open>d + 1\<close> components panics; \<open>ComputeTransform\<close> leaves all points with the
  dimensionality of the block size, so one test per branch covers the accesses of
  that branch.
\<close>

definition transferBlock :: "OpType \<Rightarrow> Voxels \<Rightarrow> Block \<Rightarrow> Point \<Rightarrow> error option \<times> Voxels \<times> Block" where
  "transferBlock op v block blockSize =
     (if NumDims blockSize > 3 then (Some TooManyDims, v, block)
      else case ComputeTransform v block blockSize of
        Inl err \<Rightarrow> (Some err, v, block)
      | Inr opBounds \<Rightarrow>
          if NumDims blockSize < 2 then (Some IndexOutOfRange, v, block)
          else
           (let bytesPerVoxel = BytesPerVoxel (vals v);
                bBeg = blockBeg opBounds;
                dBeg = dataBeg opBounds;
                dEnd = dataEnd opBounds;
                bX = i32 (Value blockSize 0 * bytesPerVoxel);
                bY = i32 (Value blockSize 1 * bX);
                dX = stride v;
                s = Geometry_DataShape (Geometry v);
                bufs = (data v, V block);
                result =
                 (if Equals s XY then
                    (if NumDims blockSize < 3 then (Some IndexOutOfRange, bufs)
                     else
                      (let blockI = i32 (Value bBeg 2 * bY + Value bBeg 1 * bX
                                         + Value bBeg 0 * bytesPerVoxel);
                           dataI = i32 (Value dBeg 1 * dX + Value dBeg 0 * bytesPerVoxel);
                           bytes = i32 ((Value dEnd 0 - Value dBeg 0 + 1) * bytesPerVoxel)
                       in rows op (Value dBeg 1) (Value dEnd 1) bytes bX dX blockI dataI bufs))
                  else if Equals s XZ then
                    (if NumDims blockSize < 3 then (Some IndexOutOfRange, bufs)
                     else
                      (let blockI = i32 (Value bBeg 2 * bY + Value bBeg 1 * bX
                                         + Value bBeg 0 * bytesPerVoxel);
                           dataI = i32 (Value dBeg 2 * stride v + Value dBeg 0 * bytesPerVoxel);
                           bytes = i32 ((Value dEnd 0 - Value dBeg 0 + 1) * bytesPerVoxel)
                       in rows op (Value dBeg 2) (Value dEnd 2) bytes bY dX blockI dataI bufs))
                  else if Equals s YZ then
                    (if NumDims blockSize < 3 then (Some IndexOutOfRange, bufs)
                     else
                      (let bz = Value bBeg 2
                       in case forE [Value dBeg 2..Value dEnd 2]
                                 (YZ_body op bytesPerVoxel bX bY dX bBeg dBeg dEnd)
                                 (bz, bufs) of
                            (err, (bz', bufs')) \<Rightarrow> (err, bufs')))
                  else if ShapeDimensions s = 2 then (Some Unsupported2dInNd, bufs)
                  else if Equals s Vol3d then
                    (if NumDims blockSize < 3 \<or> NumDims (Size (Geometry v)) < 2
                     then (Some IndexOutOfRange, bufs)
                     else
                      (let blockOffset = i32 (Value bBeg 0 * bytesPerVoxel);
                           dX = i32 (Value (Size (Geometry v)) 0 * bytesPerVoxel);
                           dY = i32 (Value (Size (Geometry v)) 1 * dX);
                           dataOffset = i32 (Value dBeg 0 * bytesPerVoxel);
                           bytes = i32 ((Value dEnd 0 - Value dBeg 0 + 1) * bytesPerVoxel);
                           blockZ = Value bBeg 2
                       in case forE [Value dBeg 2..Value dEnd 2]
                                 (Vol3d_body op bX bY dX dY blockOffset dataOffset bytes
                                    bBeg dBeg dEnd)
                                 (blockZ, bufs) of
                            (err, (blockZ', bufs')) \<Rightarrow> (err, bufs')))
                  else (Some UnsupportedShape, bufs))
            in (fst result, v\<lparr> data := fst (snd result) \<rparr>, block\<lparr> V := snd (snd result) \<rparr>)))"


definition WriteToBlock :: "Voxels \<Rightarrow> Block \<Rightarrow> Point \<Rightarrow> error option \<times> Voxels \<times> Block" where
  "WriteToBlock v block blockSize = transferBlock PutOp v block blockSize"

text \<open>
  The position, in a block buffer of block size \<open>blockSize\<close> with \<open>w\<close> bytes per voxel,
  of byte \<open>k\<close> of the voxel with block-local coordinates \<open>(x, y, z)\<close>: row-major, x
  fastest (the strides \<open>bX\<close> and \<open>bY\<close> of \<open>transferBlock\<close>).
\<close>

definition byte_offset :: "Point \<Rightarrow> int \<Rightarrow> int \<Rightarrow> int \<Rightarrow> int \<Rightarrow> int \<Rightarrow> nat" where
  "byte_offset blockSize w x y z k =
     nat (((z * Value blockSize 1 + y) * Value blockSize 0 + x) * w + k)"

definition in32 :: "int \<Rightarrow> bool" where
  "in32 x \<longleftrightarrow> - (2 ^ 31) \<le> x \<and> x < 2 ^ 31"

section \<open>GetVoxels and PutImage (package voxels)\<close>














section \<open>Serialization: the frame byte and the round trip\<close>

lemma le32_roundtrip: "read_le32 (le32 w @ rest) = Inr (w, rest)"
  unfolding le32_def
  apply simp
  apply (rule bit_word_eqI)
  subgoal for n
    by (cases "n < 8"; cases "n < 16"; cases "n < 24"; auto simp add: bit_simps)
  done

lemma format_codes:
  "Uncompressed = 0" "Snappy = 2" "NoChecksum = 0" "CRC32 = 2"
  by (simp_all add: Uncompressed_def Snappy_def NoChecksum_def CRC32_def)

lemma Decode_Encode_format:
  assumes "compress \<in> {Uncompressed, Snappy}" "checksum \<in> {NoChecksum, CRC32}"
  shows "DecodeSerializationFormat (EncodeSerializationFormat compress checksum) = (compress, checksum)"
  using assms
  by (auto simp: format_codes DecodeSerializationFormat_def EncodeSerializationFormat_def)

text \<open>
  The check value of CRC-32 (the checksum of the ASCII digits 1 to 9), and the
  serialization of the one-byte payload \<open>0x41\<close> with snappy and CRC32, step by step.
\<close>

lemma crc_check: "ChecksumIEEE [0x31, 0x32, 0x33, 0x34, 0x35, 0x36, 0x37, 0x38, 0x39] = 0xCBF43926"
  by (simp add: ChecksumIEEE_def crc32_byte_def crc32_shift_def)

lemma crc_41: "ChecksumIEEE [1, 0, 0x41] = 0xFF58C223"
  by (simp add: ChecksumIEEE_def crc32_byte_def crc32_shift_def)

lemma enc_41: "lit_Encode [0x41] = Inr [1, 0, 0x41]"
  by code_simp

lemma le32_crc_41: "le32 0xFF58C223 = [0x23, 0xC2, 0x58, 0xFF]"
  by (simp add: le32_def)

lemma ser_41:
  "SerializeData lit_snappy [0x41] Snappy CRC32 = Inr [0x22, 0x23, 0xC2, 0x58, 0xFF, 0x01, 0x00, 0x41]"
  by (simp add: SerializeData_def lit_snappy_def enc_41 crc_41 le32_crc_41 EncodeSerializationFormat_def
        Snappy_def CRC32_def Uncompressed_def NoChecksum_def)

lemma dec_42: "lit_Decode [1, 0, 0x42] = Inr [0x42]"
  by code_simp

lemma read_crc: "read_le32 [0x23, 0xC2, 0x58, 0xFF, 0x01, 0x00, 0x42] = Inr (0xFF58C223, [1, 0, 0x42])"
  by simp

lemma des_42:
  "DeserializeData lit_snappy [0x22, 0x23, 0xC2, 0x58, 0xFF, 0x01, 0x00, 0x42] True = ([0x42], Snappy, None)"
  by (simp add: DeserializeData_def DecodeSerializationFormat_def lit_snappy_def dec_42 read_crc
        Snappy_def CRC32_def Uncompressed_def NoChecksum_def)

lemma des_42_raw:
  "DeserializeData lit_snappy [0x22, 0x23, 0xC2, 0x58, 0xFF, 0x01, 0x00, 0x42] False
     = ([1, 0, 0x42], Snappy, Some BadChecksum)"
  by (simp add: DeserializeData_def DecodeSerializationFormat_def lit_snappy_def read_crc
        Snappy_def CRC32_def Uncompressed_def NoChecksum_def ChecksumIEEE_def crc32_byte_def crc32_shift_def)

text \<open>
  C3.  For every payload \<open>p\<close>, compression (none or snappy) and checksum (none or
  CRC32), serializing \<open>p\<close> succeeds and deserializing the result with uncompression
  requested returns exactly \<open>p\<close>, the compression used and no error.  The snappy
  library is a parameter; what is asked of it is that it encodes \<open>p\<close> and decodes its
  own output back to \<open>p\<close>.
\<close>

theorem C3_serialize_deserialize_roundtrip:
  assumes c: "compress \<in> {Uncompressed, Snappy}"
      and k: "checksum \<in> {NoChecksum, CRC32}"
      and lib: "compress = Snappy \<longrightarrow> (\<exists>z. Encode lib p = Inr z \<and> Decode lib z = Inr p)"
  shows "\<exists>s. SerializeData lib p compress checksum = Inr s
           \<and> DeserializeData lib s True = (p, compress, None)"
proof -
  have fmt: "DecodeSerializationFormat (EncodeSerializationFormat compress checksum) = (compress, checksum)"
    using c k by (rule Decode_Encode_format)
  have ne: "Snappy \<noteq> Uncompressed" "CRC32 \<noteq> NoChecksum"
    by (simp_all add: format_codes)
  show ?thesis
  proof (cases "compress = Snappy")
    case True
    then obtain z where z: "Encode lib p = Inr z" "Decode lib z = Inr p"
      using lib by blast
    show ?thesis
      using k True z fmt ne
      by (auto simp: SerializeData_def DeserializeData_def le32_roundtrip)
  next
    case False
    then have u: "compress = Uncompressed" using c by simp
    show ?thesis
      using k u fmt ne
      by (auto simp: SerializeData_def DeserializeData_def le32_roundtrip)
  qed
qed

theorem C3_serialize_deserialize_roundtrip_witness:
  "\<exists>s. SerializeData lit_snappy [0x41, 0x42, 0x43] Snappy CRC32 = Inr s
       \<and> DeserializeData lit_snappy s True = ([0x41, 0x42, 0x43], Snappy, None)"
proof -
  have c: "Snappy \<in> {Uncompressed, Snappy}" by simp
  have k: "CRC32 \<in> {NoChecksum, CRC32}" by simp
  have e: "Encode lit_snappy [0x41, 0x42, 0x43] = Inr [3, 8, 0x41, 0x42, 0x43]"
    by code_simp
  have d: "Decode lit_snappy [3, 8, 0x41, 0x42, 0x43] = Inr [0x41, 0x42, 0x43]"
    by code_simp
  have lib: "Snappy = Snappy \<longrightarrow> (\<exists>z. Encode lit_snappy [0x41, 0x42, 0x43] = Inr z
                \<and> Decode lit_snappy z = Inr [0x41, 0x42, 0x43])"
    using e d by simp
  show ?thesis
    by (rule C3_serialize_deserialize_roundtrip [OF c k lib])
qed

text \<open>
  C4 as stated (snappy has code 1, CRC32 has code 1, so a snappy and CRC32 value would
  start with \<open>0x11\<close>) fails: the one-byte payload \<open>0x41\<close> serialized with snappy and
  CRC32 starts with \<open>0x22\<close>.
\<close>

theorem C4_frame_byte_counterexample:
  "SerializeData lit_snappy [0x41] Snappy CRC32 = Inr [0x22, 0x23, 0xC2, 0x58, 0xFF, 0x01, 0x00, 0x41]
   \<and> (0x22 :: 8 word) \<noteq> push_bit 4 1 OR 1"
  by (simp add: ser_41)

text \<open>
  C4, amended.  Every serialized value is non-empty and its first byte is
  \<open>(compression << 4) | checksum\<close>, where the compression code is 0 for no compression
  and 2 for snappy, and the checksum code is 0 for no checksum and 2 for CRC32.
\<close>

theorem C4_frame_byte:
  assumes "compress \<in> {Uncompressed, Snappy}" "checksum \<in> {NoChecksum, CRC32}"
      and "SerializeData lib p compress checksum = Inr s"
  shows "s \<noteq> [] \<and> hd s = push_bit 4 compress OR checksum
         \<and> Uncompressed = 0 \<and> Snappy = 2 \<and> NoChecksum = 0 \<and> CRC32 = 2"
  using assms
  by (auto simp: SerializeData_def EncodeSerializationFormat_def Let_def
        Uncompressed_def Snappy_def NoChecksum_def CRC32_def split: sum.splits if_splits)

theorem C4_frame_byte_witness:
  "[0x22, 0x23, 0xC2, 0x58, 0xFF, 0x01, 0x00, 0x41] \<noteq> ([] :: byte list)
   \<and> hd [0x22, 0x23, 0xC2, 0x58, 0xFF, 0x01, 0x00, 0x41] = push_bit 4 Snappy OR CRC32
   \<and> Uncompressed = 0 \<and> Snappy = 2 \<and> NoChecksum = 0 \<and> CRC32 = 2"
proof -
  have c: "Snappy \<in> {Uncompressed, Snappy}" by simp
  have k: "CRC32 \<in> {NoChecksum, CRC32}" by simp
  have s: "SerializeData lit_snappy [0x41] Snappy CRC32 = Inr [0x22, 0x23, 0xC2, 0x58, 0xFF, 0x01, 0x00, 0x41]"
    by (rule ser_41)
  show ?thesis
    by (rule C4_frame_byte [OF c k s])
qed

text \<open>
  C5 at a concrete input.  The payload \<open>0x41\<close> is serialized with snappy and CRC32; the
  stored value is eight bytes, the last of which is the payload byte inside the snappy
  literal.  With that byte changed to \<open>0x42\<close> the stored checksum no longer matches, and
  \<open>DeserializeData\<close> with uncompression requested returns the changed byte and no error.
\<close>

theorem C5_corrupted_payload_is_returned:
  "SerializeData lit_snappy [0x41] Snappy CRC32 = Inr [0x22, 0x23, 0xC2, 0x58, 0xFF, 0x01, 0x00, 0x41]
   \<and> DeserializeData lit_snappy [0x22, 0x23, 0xC2, 0x58, 0xFF, 0x01, 0x00, 0x42] True
       = ([0x42], Snappy, None)"
  by (simp add: ser_41 des_42)

section \<open>Extents\<close>

text \<open>
  C6 at a concrete input.  The stored point extents are \<open>(5,5,5)\<close> to \<open>(10,10,10)\<close> and
  the call passes \<open>(0,0,0)\<close> and \<open>(7,7,7)\<close>: the minimum is extended to \<open>(0,0,0)\<close>, the
  maximum is not, and the call returns false.  \<open>AdjustIndices\<close> does the same on the
  index extents.
\<close>

theorem C6_changed_is_overwritten:
  "AdjustPoints \<lparr> MinPoint = Some [5, 5, 5], MaxPoint = Some [10, 10, 10],
                  MinIndex = None, MaxIndex = None \<rparr> [0, 0, 0] [7, 7, 7]
     = (False, \<lparr> MinPoint = Some [0, 0, 0], MaxPoint = Some [10, 10, 10],
                 MinIndex = None, MaxIndex = None \<rparr>)
   \<and> AdjustIndices \<lparr> MinPoint = None, MaxPoint = None,
                     MinIndex = Some [5, 5, 5], MaxIndex = Some [10, 10, 10] \<rparr> [0, 0, 0] [7, 7, 7]
     = (False, \<lparr> MinPoint = None, MaxPoint = None,
                 MinIndex = Some [0, 0, 0], MaxIndex = Some [10, 10, 10] \<rparr>)"
  by (simp add: AdjustPoints_def AdjustIndices_def Point_Min_def Point_Max_def)

section \<open>NewExtHandler\<close>

lemma i32_id: "- (2 ^ 31) \<le> x \<Longrightarrow> x < 2 ^ 31 \<Longrightarrow> i32 x = x"
  unfolding i32_def by (rule signed_take_bit_int_eq_self)







section \<open>Transfer: unsupported shapes and the Vol3d case\<close>

lemma shape_loop_eq: "length a = length b \<Longrightarrow> shape_loop a b \<longleftrightarrow> a = b"
  by (induction a b rule: list_induct2) auto

lemma Equals_iff: "Equals s s2 \<longleftrightarrow> s = s2"
  by (cases s; cases s2) (auto simp: Equals_def shape_loop_eq)



text \<open>
  The slice cases at concrete inputs, for comparison with the Vol3d case below: a read
  of an XY slice and of a YZ slice fills the view from the block and leaves the
  block, a write of an XZ slice fills the block from the view and leaves the view.
\<close>

lemma slice_read_and_write_example:
  "transferBlock GetOp
     \<lparr> Geometry = OrthogSlice XY [0, 0, 1] (2, 2) [1, 1, 1],
       vals = [\<lparr> DataType = ''uint8'', Label = ''grayscale'' \<rparr>],
       data = [0, 0, 0, 0], stride = 2, byteOrder = False \<rparr>
     \<lparr> K = DataKey 1 1 1 [0, 0, 0], V = [1, 2, 3, 4, 5, 6, 7, 8] \<rparr> [2, 2, 2]
   = (None,
     \<lparr> Geometry = OrthogSlice XY [0, 0, 1] (2, 2) [1, 1, 1],
       vals = [\<lparr> DataType = ''uint8'', Label = ''grayscale'' \<rparr>],
       data = [5, 6, 7, 8], stride = 2, byteOrder = False \<rparr>,
     \<lparr> K = DataKey 1 1 1 [0, 0, 0], V = [1, 2, 3, 4, 5, 6, 7, 8] \<rparr>)"
  "transferBlock PutOp
     \<lparr> Geometry = OrthogSlice XZ [0, 1, 0] (2, 2) [1, 1, 1],
       vals = [\<lparr> DataType = ''uint8'', Label = ''grayscale'' \<rparr>],
       data = [9, 9, 9, 9], stride = 2, byteOrder = False \<rparr>
     \<lparr> K = DataKey 1 1 1 [0, 0, 0], V = [1, 2, 3, 4, 5, 6, 7, 8] \<rparr> [2, 2, 2]
   = (None,
     \<lparr> Geometry = OrthogSlice XZ [0, 1, 0] (2, 2) [1, 1, 1],
       vals = [\<lparr> DataType = ''uint8'', Label = ''grayscale'' \<rparr>],
       data = [9, 9, 9, 9], stride = 2, byteOrder = False \<rparr>,
     \<lparr> K = DataKey 1 1 1 [0, 0, 0], V = [1, 2, 9, 9, 5, 6, 9, 9] \<rparr>)"
  "transferBlock GetOp
     \<lparr> Geometry = OrthogSlice YZ [1, 0, 0] (2, 2) [1, 1, 1],
       vals = [\<lparr> DataType = ''uint8'', Label = ''grayscale'' \<rparr>],
       data = [0, 0, 0, 0], stride = 2, byteOrder = False \<rparr>
     \<lparr> K = DataKey 1 1 1 [0, 0, 0], V = [1, 2, 3, 4, 5, 6, 7, 8] \<rparr> [2, 2, 2]
   = (None,
     \<lparr> Geometry = OrthogSlice YZ [1, 0, 0] (2, 2) [1, 1, 1],
       vals = [\<lparr> DataType = ''uint8'', Label = ''grayscale'' \<rparr>],
       data = [2, 4, 6, 8], stride = 2, byteOrder = False \<rparr>,
     \<lparr> K = DataKey 1 1 1 [0, 0, 0], V = [1, 2, 3, 4, 5, 6, 7, 8] \<rparr>)"
  by code_simp+

text \<open>
  C2 at a concrete input: a 2 x 2 x 2 subvolume with payload 1..8 over a zero block
  of the same size.  The read operation (\<open>GetOp\<close>) leaves the view's buffer as it
  was and writes the payload into the block; the write operation (\<open>PutOp\<close>) leaves
  the block as it was and overwrites the view's buffer with the block's zeros.
\<close>

theorem C2_vol3d_direction_is_swapped:
  "transferBlock GetOp
     \<lparr> Geometry = Subvolume Vol3d [0, 0, 0] [2, 2, 2],
       vals = [\<lparr> DataType = ''uint8'', Label = ''grayscale'' \<rparr>],
       data = [1, 2, 3, 4, 5, 6, 7, 8], stride = 2, byteOrder = False \<rparr>
     \<lparr> K = DataKey 1 1 1 [0, 0, 0], V = [0, 0, 0, 0, 0, 0, 0, 0] \<rparr> [2, 2, 2]
   = (None,
     \<lparr> Geometry = Subvolume Vol3d [0, 0, 0] [2, 2, 2],
       vals = [\<lparr> DataType = ''uint8'', Label = ''grayscale'' \<rparr>],
       data = [1, 2, 3, 4, 5, 6, 7, 8], stride = 2, byteOrder = False \<rparr>,
     \<lparr> K = DataKey 1 1 1 [0, 0, 0], V = [1, 2, 3, 4, 5, 6, 7, 8] \<rparr>)
   \<and> transferBlock PutOp
     \<lparr> Geometry = Subvolume Vol3d [0, 0, 0] [2, 2, 2],
       vals = [\<lparr> DataType = ''uint8'', Label = ''grayscale'' \<rparr>],
       data = [1, 2, 3, 4, 5, 6, 7, 8], stride = 2, byteOrder = False \<rparr>
     \<lparr> K = DataKey 1 1 1 [0, 0, 0], V = [0, 0, 0, 0, 0, 0, 0, 0] \<rparr> [2, 2, 2]
   = (None,
     \<lparr> Geometry = Subvolume Vol3d [0, 0, 0] [2, 2, 2],
       vals = [\<lparr> DataType = ''uint8'', Label = ''grayscale'' \<rparr>],
       data = [0, 0, 0, 0, 0, 0, 0, 0], stride = 2, byteOrder = False \<rparr>,
     \<lparr> K = DataKey 1 1 1 [0, 0, 0], V = [0, 0, 0, 0, 0, 0, 0, 0] \<rparr>)"
  by code_simp

section \<open>Transfer: what a write leaves unchanged\<close>

lemma i32_in32: "in32 x \<Longrightarrow> i32 x = x"
  by (simp add: in32_def i32_id)

lemma go_copy_frame:
  assumes "go_copy dst lo hi src slo shi = (err, dst')"
  shows "length dst' = length dst"
    and "\<And>i. i < length dst \<Longrightarrow> int i < lo \<or> hi \<le> int i \<Longrightarrow> dst' ! i = dst ! i"
proof -
  show "length dst' = length dst"
    using assms by (auto simp: go_copy_def slice_ok_def Let_def split: if_splits)
  fix i assume i: "i < length dst" "int i < lo \<or> hi \<le> int i"
  show "dst' ! i = dst ! i"
  proof (cases "slice_ok dst lo hi \<and> slice_ok src slo shi")
    case False
    then show ?thesis using assms by (auto simp: go_copy_def split: if_splits)
  next
    case True
    define n where "n = nat (min (hi - lo) (shi - slo))"
    have d: "dst' = take (nat lo) dst @ take n (drop (nat slo) src) @ drop (nat lo + n) dst"
      using assms True by (simp add: go_copy_def Let_def n_def)
    have ln: "length (take n (drop (nat slo) src)) = n"
      using True by (auto simp: slice_ok_def n_def)
    have lo: "nat lo \<le> length dst" "nat lo + n \<le> length dst"
      using True by (auto simp: slice_ok_def n_def)
    from i(2) show ?thesis
    proof
      assume "int i < lo"
      then have "i < nat lo" by simp
      then show ?thesis using lo by (simp add: d nth_append)
    next
      assume "hi \<le> int i"
      then have ge: "nat lo + n \<le> i"
        using True by (auto simp: slice_ok_def n_def)
      then show ?thesis
        using lo i(1) ln by (auto simp: d nth_append)
    qed
  qed
qed

lemma forE_row_put_frame:
  assumes "forE ys (row_put bytes bStep dStep) (bI, dI, dat, bv) = (err, (bI', dI', dat', bv'))"
      and "\<forall>j < length ys. in32 (bI + int j * bStep) \<and> in32 (bI + int j * bStep + bytes)"
  shows "dat' = dat \<and> length bv' = length bv
         \<and> (\<forall>i < length bv. (\<forall>j < length ys. \<not> (bI + int j * bStep \<le> int i \<and> int i < bI + int j * bStep + bytes))
               \<longrightarrow> bv' ! i = bv ! i)"
  using assms
proof (induction ys arbitrary: bI dI bv)
  case Nil
  then show ?case by simp
next
  case (Cons y ys)
  obtain e1 bv1 where c: "go_copy bv bI (i32 (bI + bytes)) dat dI (i32 (dI + bytes)) = (e1, bv1)"
    by (cases "go_copy bv bI (i32 (bI + bytes)) dat dI (i32 (dI + bytes))")
  have r0: "in32 bI" "in32 (bI + bytes)"
    using Cons.prems(2) by auto
  have hi: "i32 (bI + bytes) = bI + bytes" using r0 by (simp add: i32_in32)
  have f1: "length bv1 = length bv"
    and f2: "\<And>i. i < length bv \<Longrightarrow> int i < bI \<or> bI + bytes \<le> int i \<Longrightarrow> bv1 ! i = bv ! i"
    using go_copy_frame [OF c] hi by auto
  show ?case
  proof (cases e1)
    case (Some e)
    then have "dat' = dat" "bv' = bv1"
      using Cons.prems(1) c by auto
    then show ?thesis using f1 f2 by fastforce
  next
    case None
    then have rest: "forE ys (row_put bytes bStep dStep) (i32 (bI + bStep), i32 (dI + dStep), dat, bv1)
                  = (err, (bI', dI', dat', bv'))"
      using Cons.prems(1) c by simp
    show ?thesis
    proof (cases ys)
      case Nil
      then have "dat' = dat" "bv' = bv1" using rest by auto
      then show ?thesis using f1 f2 by fastforce
    next
      case (Cons y2 ys2)
      then have "in32 (bI + bStep)" using Cons.prems(2) [rule_format, of 1] Cons by simp
      then have st: "i32 (bI + bStep) = bI + bStep" by (simp add: i32_in32)
      have pre: "\<forall>j < length ys. in32 (bI + bStep + int j * bStep) \<and> in32 (bI + bStep + int j * bStep + bytes)"
      proof (intro allI impI)
        fix j assume "j < length ys"
        then have "Suc j < length (y # ys)" by simp
        from Cons.prems(2) [rule_format, OF this]
        show "in32 (bI + bStep + int j * bStep) \<and> in32 (bI + bStep + int j * bStep + bytes)"
          by (simp add: algebra_simps)
      qed
      have ih: "dat' = dat \<and> length bv' = length bv1
         \<and> (\<forall>i < length bv1. (\<forall>j < length ys. \<not> (bI + bStep + int j * bStep \<le> int i \<and> int i < bI + bStep + int j * bStep + bytes))
               \<longrightarrow> bv' ! i = bv1 ! i)"
        using Cons.IH [OF rest [unfolded st] pre] .
      have "\<forall>i < length bv. (\<forall>j < length (y # ys). \<not> (bI + int j * bStep \<le> int i \<and> int i < bI + int j * bStep + bytes))
               \<longrightarrow> bv' ! i = bv ! i"
      proof (intro allI impI)
        fix i assume i: "i < length bv"
          and nt: "\<forall>j < length (y # ys). \<not> (bI + int j * bStep \<le> int i \<and> int i < bI + int j * bStep + bytes)"
        have "\<not> (bI \<le> int i \<and> int i < bI + bytes)" using nt [rule_format, of 0] by simp
        then have a: "bv1 ! i = bv ! i" using f2 [OF i] by auto
        have "\<forall>j < length ys. \<not> (bI + bStep + int j * bStep \<le> int i \<and> int i < bI + bStep + int j * bStep + bytes)"
        proof (intro allI impI)
          fix j assume "j < length ys"
          then have "Suc j < length (y # ys)" by simp
          from nt [rule_format, OF this]
          show "\<not> (bI + bStep + int j * bStep \<le> int i \<and> int i < bI + bStep + int j * bStep + bytes)"
            by (simp add: algebra_simps)
        qed
        then have "bv' ! i = bv1 ! i" using ih i f1 by simp
        then show "bv' ! i = bv ! i" using a by simp
      qed
      then show ?thesis using ih f1 by simp
    qed
  qed
qed

lemma rows_put_frame:
  assumes run: "rows PutOp beg end bytes bStep dStep bI dI (dat, bv) = (err, (dat', bv'))"
      and rng: "\<forall>j. 0 \<le> j \<and> j \<le> end - beg \<longrightarrow> in32 (bI + j * bStep) \<and> in32 (bI + j * bStep + bytes)"
  shows "dat' = dat \<and> length bv' = length bv
         \<and> (\<forall>i < length bv. (\<forall>j. 0 \<le> j \<and> j \<le> end - beg \<longrightarrow>
                 \<not> (bI + j * bStep \<le> int i \<and> int i < bI + j * bStep + bytes))
               \<longrightarrow> bv' ! i = bv ! i)"
proof -
  obtain bI' dI' where f: "forE [beg..end] (row_put bytes bStep dStep) (bI, dI, dat, bv) = (err, (bI', dI', dat', bv'))"
    using run by (auto simp: rows_def split: prod.splits)
  have len: "\<And>j. j < length [beg..end] \<Longrightarrow> 0 \<le> int j \<and> int j \<le> end - beg"
    by auto
  have pre: "\<forall>j < length [beg..end]. in32 (bI + int j * bStep) \<and> in32 (bI + int j * bStep + bytes)"
    using rng len by blast
  have r: "dat' = dat \<and> length bv' = length bv
         \<and> (\<forall>i < length bv. (\<forall>j < length [beg..end]. \<not> (bI + int j * bStep \<le> int i \<and> int i < bI + int j * bStep + bytes))
               \<longrightarrow> bv' ! i = bv ! i)"
    by (rule forE_row_put_frame [OF f pre])
  have "\<forall>i < length bv. (\<forall>j. 0 \<le> j \<and> j \<le> end - beg \<longrightarrow>
                 \<not> (bI + j * bStep \<le> int i \<and> int i < bI + j * bStep + bytes))
               \<longrightarrow> bv' ! i = bv ! i"
  proof (intro allI impI)
    fix i assume i: "i < length bv"
      and nt: "\<forall>j. 0 \<le> j \<and> j \<le> end - beg \<longrightarrow> \<not> (bI + j * bStep \<le> int i \<and> int i < bI + j * bStep + bytes)"
    have "\<forall>j < length [beg..end]. \<not> (bI + int j * bStep \<le> int i \<and> int i < bI + int j * bStep + bytes)"
      using nt len by blast
    then show "bv' ! i = bv ! i" using r i by blast
  qed
  then show ?thesis using r by blast
qed

lemma radix_unique:
  fixes q :: int
  assumes "0 \<le> r" "r < b" "0 \<le> r'" "r' < b" "q * b + r = q' * b + r'"
  shows "q = q' \<and> r = r'"
proof -
  have "(q * b + r) div b = q" using assms(1,2) by simp
  moreover have "(q' * b + r') div b = q'" using assms(3,4) by simp
  ultimately have "q = q'" using assms(5) by simp
  then show ?thesis using assms(5) by simp
qed

lemma offs_bounds:
  fixes z :: int
  assumes "0 \<le> z" "z < sz" "0 \<le> y" "y < sy" "0 \<le> a" "a \<le> bX"
  shows "0 \<le> z * (sy * bX) + y * bX + a" "z * (sy * bX) + y * bX + a \<le> sz * (sy * bX)"
proof -
  have bX: "0 \<le> bX" using assms(5,6) by simp
  have 1: "0 \<le> y * bX" "0 \<le> z * (sy * bX)"
    using assms bX by (simp_all add: mult_nonneg_nonneg)
  show "0 \<le> z * (sy * bX) + y * bX + a" using 1 assms(5) by simp
  have "y * bX + a \<le> y * bX + bX" using assms(6) by simp
  also have "\<dots> = (y + 1) * bX" by (simp add: algebra_simps)
  also have "\<dots> \<le> sy * bX" using assms(4) bX by (intro mult_right_mono) auto
  finally have 2: "y * bX + a \<le> sy * bX" .
  have "z * (sy * bX) + y * bX + a \<le> z * (sy * bX) + sy * bX" using 2 by simp
  also have "\<dots> = (z + 1) * (sy * bX)" by (simp add: algebra_simps)
  also have "\<dots> \<le> sz * (sy * bX)"
    using assms bX by (intro mult_right_mono mult_nonneg_nonneg) auto
  finally show "z * (sy * bX) + y * bX + a \<le> sz * (sy * bX)" .
qed

lemma touched_in_box:
  fixes x :: int
  assumes w: "0 \<le> k" "k < w"
      and x: "0 \<le> x" "x < sx" and y: "0 \<le> y" "y < sy"
      and x0: "0 \<le> x0" "x0 + nx \<le> sx" and y0: "0 \<le> y0" "y0 < sy"
      and lo: "z0 * (sy * (sx * w)) + y0 * (sx * w) + x0 * w \<le> z * (sy * (sx * w)) + y * (sx * w) + x * w + k"
      and hi: "z * (sy * (sx * w)) + y * (sx * w) + x * w + k < z0 * (sy * (sx * w)) + y0 * (sx * w) + x0 * w + nx * w"
  shows "z = z0 \<and> y = y0 \<and> x0 \<le> x \<and> x < x0 + nx"
proof -
  define bX where "bX = sx * w"
  define i where "i = z * (sy * bX) + y * bX + x * w + k"
  define r where "r = i - (z0 * (sy * bX) + y0 * bX)"
  have wpos: "0 < w" using w by simp
  have a1: "0 \<le> x * w + k" using w x by (simp add: mult_nonneg_nonneg)
  have "x * w + k < x * w + w" using w by simp
  also have "\<dots> = (x + 1) * w" by (simp add: algebra_simps)
  also have "\<dots> \<le> sx * w" using x wpos by (intro mult_right_mono) auto
  finally have a2: "x * w + k < bX" by (simp add: bX_def)
  have r1: "x0 * w \<le> r" using lo by (simp add: r_def i_def bX_def)
  have r2: "r < x0 * w + nx * w" using hi by (simp add: r_def i_def bX_def)
  have "0 \<le> x0 * w" using x0 wpos by (simp add: mult_nonneg_nonneg)
  then have r3: "0 \<le> r" using r1 by simp
  have "x0 * w + nx * w = (x0 + nx) * w" by (simp add: algebra_simps)
  also have "\<dots> \<le> sx * w" using x0 wpos by (intro mult_right_mono) auto
  finally have r4: "r < bX" using r2 by (simp add: bX_def)
  have bXpos: "0 \<le> bX" using a1 a2 by simp
  have A: "0 \<le> y * bX + (x * w + k)" "y * bX + (x * w + k) < sy * bX"
  proof -
    show "0 \<le> y * bX + (x * w + k)" using y a1 bXpos by (simp add: mult_nonneg_nonneg)
    have "y * bX + (x * w + k) < y * bX + bX" using a2 by simp
    also have "\<dots> = (y + 1) * bX" by (simp add: algebra_simps)
    also have "\<dots> \<le> sy * bX" using y bXpos by (intro mult_right_mono) auto
    finally show "y * bX + (x * w + k) < sy * bX" .
  qed
  have B: "0 \<le> y0 * bX + r" "y0 * bX + r < sy * bX"
  proof -
    show "0 \<le> y0 * bX + r" using y0 r3 bXpos by (simp add: mult_nonneg_nonneg)
    have "y0 * bX + r < y0 * bX + bX" using r4 by simp
    also have "\<dots> = (y0 + 1) * bX" by (simp add: algebra_simps)
    also have "\<dots> \<le> sy * bX" using y0 bXpos by (intro mult_right_mono) auto
    finally show "y0 * bX + r < sy * bX" .
  qed
  have eq1: "z * (sy * bX) + (y * bX + (x * w + k)) = z0 * (sy * bX) + (y0 * bX + r)"
    by (simp add: r_def i_def)
  have zz: "z = z0" and eq2: "y * bX + (x * w + k) = y0 * bX + r"
    using radix_unique [OF A B eq1] by auto
  have yy: "y = y0" and eq3: "x * w + k = r"
    using radix_unique [OF a1 a2 r3 r4 eq2] by auto
  have "x0 * w < (x + 1) * w"
  proof -
    have "x0 * w \<le> x * w + k" using r1 eq3 by simp
    also have "\<dots> < (x + 1) * w" using w by (simp add: algebra_simps)
    finally show ?thesis .
  qed
  then have "x0 < x + 1" using wpos by (simp add: mult_less_cancel_right)
  moreover have "x * w < (x0 + nx) * w"
  proof -
    have "x * w \<le> x * w + k" using w by simp
    also have "\<dots> < (x0 + nx) * w" using r2 eq3 by (simp add: algebra_simps)
    finally show ?thesis .
  qed
  then have "x < x0 + nx" using wpos by (simp add: mult_less_cancel_right)
  ultimately show ?thesis using zz yy by simp
qed

lemma rows_put_y:
  assumes run: "rows PutOp beg end (nx * w) (sx * w) dStep
                  (z0 * (sy * (sx * w)) + y0 * (sx * w) + x0 * w) dI (dat, bv) = (err, (dat', bv'))"
      and tot: "sz * (sy * (sx * w)) < 2 ^ 31"
      and box: "0 \<le> x0" "0 \<le> nx" "x0 + nx \<le> sx" "0 \<le> y0" "y0 + (end - beg) < sy" "0 \<le> z0" "z0 < sz"
      and cell: "0 \<le> k" "k < w" "0 \<le> x" "x < sx" "0 \<le> y" "y < sy"
      and out: "\<not> (z = z0 \<and> y0 \<le> y \<and> y \<le> y0 + (end - beg) \<and> x0 \<le> x \<and> x < x0 + nx)"
      and i: "nat (z * (sy * (sx * w)) + y * (sx * w) + x * w + k) < length bv"
      and z: "0 \<le> z"
  shows "dat' = dat \<and> length bv' = length bv
         \<and> bv' ! nat (z * (sy * (sx * w)) + y * (sx * w) + x * w + k)
           = bv ! nat (z * (sy * (sx * w)) + y * (sx * w) + x * w + k)"
proof -
  define bX where "bX = sx * w"
  define bI where "bI = z0 * (sy * bX) + y0 * bX + x0 * w"
  define idx where "idx = z * (sy * bX) + y * bX + x * w + k"
  have wpos: "0 < w" using cell by simp
  have a0: "0 \<le> x0 * w" using box wpos by (simp add: mult_nonneg_nonneg)
  have "x0 * w + nx * w = (x0 + nx) * w" by (simp add: algebra_simps)
  also have "\<dots> \<le> sx * w" using box wpos by (intro mult_right_mono) auto
  finally have a1: "x0 * w + nx * w \<le> bX" by (simp add: bX_def)
  have a2: "0 \<le> nx * w" using box wpos by (simp add: mult_nonneg_nonneg)
  have a3: "x0 * w \<le> bX" using a1 a2 by simp
  have idx0: "0 \<le> idx"
  proof -
    have "0 \<le> bX" using a0 a3 by simp
    then have "0 \<le> z * (sy * bX)" "0 \<le> y * bX" "0 \<le> x * w"
      using z cell by (simp_all add: mult_nonneg_nonneg)
    then show ?thesis using cell by (simp add: idx_def)
  qed
  have rng: "\<forall>j. 0 \<le> j \<and> j \<le> end - beg \<longrightarrow> in32 (bI + j * bX) \<and> in32 (bI + j * bX + nx * w)"
  proof (intro allI impI)
    fix j :: int assume j: "0 \<le> j \<and> j \<le> end - beg"
    then have yj: "0 \<le> y0 + j" "y0 + j < sy" using box by auto
    have e: "bI + j * bX = z0 * (sy * bX) + (y0 + j) * bX + x0 * w"
      by (simp add: bI_def algebra_simps)
    have b1: "0 \<le> z0 * (sy * bX) + (y0 + j) * bX + x0 * w"
      and b2: "z0 * (sy * bX) + (y0 + j) * bX + (x0 * w + nx * w) \<le> sz * (sy * bX)"
      using offs_bounds [OF box(6,7) yj a0 a3] offs_bounds [OF box(6,7) yj _ a1] a0 a2 by auto
    show "in32 (bI + j * bX) \<and> in32 (bI + j * bX + nx * w)"
      using b1 b2 a2 tot unfolding e in32_def by (auto simp: bX_def)
  qed
  have fr: "dat' = dat \<and> length bv' = length bv
         \<and> (\<forall>i < length bv. (\<forall>j. 0 \<le> j \<and> j \<le> end - beg \<longrightarrow>
                 \<not> (bI + j * bX \<le> int i \<and> int i < bI + j * bX + nx * w))
               \<longrightarrow> bv' ! i = bv ! i)"
    using rows_put_frame [OF run [folded bX_def, folded bI_def] rng] .
  have nt: "\<forall>j. 0 \<le> j \<and> j \<le> end - beg \<longrightarrow>
                 \<not> (bI + j * bX \<le> int (nat idx) \<and> int (nat idx) < bI + j * bX + nx * w)"
  proof (intro allI impI notI)
    fix j :: int assume j: "0 \<le> j \<and> j \<le> end - beg"
      and t: "bI + j * bX \<le> int (nat idx) \<and> int (nat idx) < bI + j * bX + nx * w"
    have yj: "0 \<le> y0 + j" "y0 + j < sy" using j box by auto
    have e: "bI + j * bX = z0 * (sy * (sx * w)) + (y0 + j) * (sx * w) + x0 * w"
      by (simp add: bI_def bX_def algebra_simps)
    have lo: "z0 * (sy * (sx * w)) + (y0 + j) * (sx * w) + x0 * w
              \<le> z * (sy * (sx * w)) + y * (sx * w) + x * w + k"
      using t idx0 unfolding e by (simp add: idx_def bX_def)
    have hi: "z * (sy * (sx * w)) + y * (sx * w) + x * w + k
              < z0 * (sy * (sx * w)) + (y0 + j) * (sx * w) + x0 * w + nx * w"
      using t idx0 unfolding e by (simp add: idx_def bX_def)
    have "z = z0 \<and> y = y0 + j \<and> x0 \<le> x \<and> x < x0 + nx"
      by (rule touched_in_box [OF cell(1,2,3,4,5,6) box(1,3) yj lo hi])
    then show False using out j by auto
  qed
  have "bv' ! nat idx = bv ! nat idx"
    using fr nt i by (simp add: idx_def bX_def)
  then show ?thesis using fr by (simp add: idx_def bX_def)
qed

lemma rows_put_z:
  assumes run: "rows PutOp beg end (nx * w) (sy * (sx * w)) dStep
                  (z0 * (sy * (sx * w)) + y0 * (sx * w) + x0 * w) dI (dat, bv) = (err, (dat', bv'))"
      and tot: "sz * (sy * (sx * w)) < 2 ^ 31"
      and box: "0 \<le> x0" "0 \<le> nx" "x0 + nx \<le> sx" "0 \<le> y0" "y0 < sy" "0 \<le> z0" "z0 + (end - beg) < sz"
      and cell: "0 \<le> k" "k < w" "0 \<le> x" "x < sx" "0 \<le> y" "y < sy"
      and out: "\<not> (y = y0 \<and> z0 \<le> z \<and> z \<le> z0 + (end - beg) \<and> x0 \<le> x \<and> x < x0 + nx)"
      and i: "nat (z * (sy * (sx * w)) + y * (sx * w) + x * w + k) < length bv"
      and z: "0 \<le> z"
  shows "dat' = dat \<and> length bv' = length bv
         \<and> bv' ! nat (z * (sy * (sx * w)) + y * (sx * w) + x * w + k)
           = bv ! nat (z * (sy * (sx * w)) + y * (sx * w) + x * w + k)"
proof -
  define bX where "bX = sx * w"
  define bY where "bY = sy * bX"
  define bI where "bI = z0 * bY + y0 * bX + x0 * w"
  define idx where "idx = z * bY + y * bX + x * w + k"
  have wpos: "0 < w" using cell by simp
  have a0: "0 \<le> x0 * w" using box wpos by (simp add: mult_nonneg_nonneg)
  have "x0 * w + nx * w = (x0 + nx) * w" by (simp add: algebra_simps)
  also have "\<dots> \<le> sx * w" using box wpos by (intro mult_right_mono) auto
  finally have a1: "x0 * w + nx * w \<le> bX" by (simp add: bX_def)
  have a2: "0 \<le> nx * w" using box wpos by (simp add: mult_nonneg_nonneg)
  have a3: "x0 * w \<le> bX" using a1 a2 by simp
  have idx0: "0 \<le> idx"
  proof -
    have "0 \<le> bX" using a0 a3 by simp
    then have "0 \<le> z * (sy * bX)" "0 \<le> y * bX" "0 \<le> x * w"
      using z cell by (simp_all add: mult_nonneg_nonneg)
    then show ?thesis using cell by (simp add: idx_def bY_def)
  qed
  have rng: "\<forall>j. 0 \<le> j \<and> j \<le> end - beg \<longrightarrow> in32 (bI + j * bY) \<and> in32 (bI + j * bY + nx * w)"
  proof (intro allI impI)
    fix j :: int assume j: "0 \<le> j \<and> j \<le> end - beg"
    then have zj: "0 \<le> z0 + j" "z0 + j < sz" using box by auto
    have e: "bI + j * bY = (z0 + j) * (sy * bX) + y0 * bX + x0 * w"
      by (simp add: bI_def bY_def algebra_simps)
    have b1: "0 \<le> (z0 + j) * (sy * bX) + y0 * bX + x0 * w"
      and b2: "(z0 + j) * (sy * bX) + y0 * bX + (x0 * w + nx * w) \<le> sz * (sy * bX)"
      using offs_bounds [OF zj box(4,5) a0 a3] offs_bounds [OF zj box(4,5) _ a1] a0 a2 by auto
    show "in32 (bI + j * bY) \<and> in32 (bI + j * bY + nx * w)"
      using b1 b2 a2 tot unfolding e in32_def by (auto simp: bX_def)
  qed
  have fr: "dat' = dat \<and> length bv' = length bv
         \<and> (\<forall>i < length bv. (\<forall>j. 0 \<le> j \<and> j \<le> end - beg \<longrightarrow>
                 \<not> (bI + j * bY \<le> int i \<and> int i < bI + j * bY + nx * w))
               \<longrightarrow> bv' ! i = bv ! i)"
    using rows_put_frame [OF run [folded bX_def, folded bY_def, folded bI_def] rng] .
  have nt: "\<forall>j. 0 \<le> j \<and> j \<le> end - beg \<longrightarrow>
                 \<not> (bI + j * bY \<le> int (nat idx) \<and> int (nat idx) < bI + j * bY + nx * w)"
  proof (intro allI impI notI)
    fix j :: int assume j: "0 \<le> j \<and> j \<le> end - beg"
      and t: "bI + j * bY \<le> int (nat idx) \<and> int (nat idx) < bI + j * bY + nx * w"
    have e: "bI + j * bY = (z0 + j) * (sy * (sx * w)) + y0 * (sx * w) + x0 * w"
      by (simp add: bI_def bY_def bX_def algebra_simps)
    have lo: "(z0 + j) * (sy * (sx * w)) + y0 * (sx * w) + x0 * w
              \<le> z * (sy * (sx * w)) + y * (sx * w) + x * w + k"
      using t idx0 unfolding e by (simp add: idx_def bX_def bY_def)
    have hi: "z * (sy * (sx * w)) + y * (sx * w) + x * w + k
              < (z0 + j) * (sy * (sx * w)) + y0 * (sx * w) + x0 * w + nx * w"
      using t idx0 unfolding e by (simp add: idx_def bX_def bY_def)
    have "z = z0 + j \<and> y = y0 \<and> x0 \<le> x \<and> x < x0 + nx"
      by (rule touched_in_box [OF cell(1,2,3,4,5,6) box(1,3,4,5) lo hi])
    then show False using out j by auto
  qed
  have "bv' ! nat idx = bv ! nat idx"
    using fr nt i by (simp add: idx_def bX_def bY_def)
  then show ?thesis using fr by (simp add: idx_def bX_def bY_def)
qed

lemma forE_YZ_put:
  assumes run: "forE ys (YZ_body PutOp w (sx * w) (sy * (sx * w)) dX [x0, y0, zb] dBeg dEnd) (z0, dat, bv)
                  = (err, (z', dat', bv'))"
      and tot: "sz * (sy * (sx * w)) < 2 ^ 31"
      and sizes: "0 < sx" "0 < sy"
      and box: "0 \<le> x0" "x0 < sx" "0 \<le> y0" "y0 + (Value dEnd 1 - Value dBeg 1) < sy"
               "0 \<le> z0" "z0 + int (length ys) \<le> sz"
      and cell: "0 \<le> k" "k < w" "0 \<le> x" "x < sx" "0 \<le> y" "y < sy"
      and out: "\<not> (x = x0 \<and> y0 \<le> y \<and> y \<le> y0 + (Value dEnd 1 - Value dBeg 1)
                    \<and> z0 \<le> z \<and> z < z0 + int (length ys))"
      and i: "nat (z * (sy * (sx * w)) + y * (sx * w) + x * w + k) < length bv"
      and z: "0 \<le> z"
  shows "dat' = dat \<and> length bv' = length bv
         \<and> bv' ! nat (z * (sy * (sx * w)) + y * (sx * w) + x * w + k)
           = bv ! nat (z * (sy * (sx * w)) + y * (sx * w) + x * w + k)"
  using run box(5,6) out i
proof (induction ys arbitrary: z0 bv)
  case Nil
  then show ?case by simp
next
  case (Cons y1 ys)
  define bI where "bI = z0 * (sy * (sx * w)) + y0 * (sx * w) + x0 * w"
  define dI where "dI = i32 (y1 * dX + Value dBeg 1 * w)"
  have wpos: "0 < w" using cell by simp
  have z0: "0 \<le> z0" "z0 < sz" using Cons.prems by auto
  have a0: "0 \<le> x0 * w" using box wpos by (simp add: mult_nonneg_nonneg)
  have "x0 * w \<le> sx * w" using box wpos by (intro mult_right_mono) auto
  then have a1: "x0 * w \<le> sx * w" .
  have y0': "y0 < sy \<or> Value dEnd 1 - Value dBeg 1 < 0" using box by auto
  have bYpos: "1 \<le> sy * (sx * w)"
  proof -
    have "0 < sx * w" using sizes wpos by simp
    then have "0 < sy * (sx * w)" using sizes by simp
    then show ?thesis by linarith
  qed
  have szle: "sz \<le> sz * (sy * (sx * w))"
  proof -
    have "sz * 1 \<le> sz * (sy * (sx * w))"
      using bYpos z0 by (intro mult_left_mono) auto
    then show ?thesis by simp
  qed
  obtain e1 dat1 bv1 where r: "rows PutOp (Value dBeg 1) (Value dEnd 1) w (sx * w) w (i32 bI) dI (dat, bv) = (e1, (dat1, bv1))"
    using prod_cases3 by blast
  have fr1: "dat1 = dat \<and> length bv1 = length bv
         \<and> bv1 ! nat (z * (sy * (sx * w)) + y * (sx * w) + x * w + k)
           = bv ! nat (z * (sy * (sx * w)) + y * (sx * w) + x * w + k)"
  proof (cases "Value dEnd 1 - Value dBeg 1 < 0")
    case True
    then have "[Value dBeg 1..Value dEnd 1] = []" by simp
    then show ?thesis using r by (simp add: rows_def)
  next
    case False
    then have y0s: "y0 < sy" using box by auto
    have "0 \<le> bI" "bI \<le> sz * (sy * (sx * w))"
      using offs_bounds [OF z0 box(3) y0s a0 a1] by (auto simp: bI_def)
    then have bIeq: "i32 bI = bI" using tot by (intro i32_id) auto
    have r': "rows PutOp (Value dBeg 1) (Value dEnd 1) (1 * w) (sx * w) w
                (z0 * (sy * (sx * w)) + y0 * (sx * w) + x0 * w) dI (dat, bv) = (e1, (dat1, bv1))"
      using r [unfolded bIeq] by (simp add: bI_def)
    have bx1: "x0 + 1 \<le> sx" using box by simp
    have out1: "\<not> (z = z0 \<and> y0 \<le> y \<and> y \<le> y0 + (Value dEnd 1 - Value dBeg 1) \<and> x0 \<le> x \<and> x < x0 + 1)"
      using Cons.prems(4) by auto
    show ?thesis
      by (rule rows_put_y [OF r' tot box(1) _ bx1 box(3,4) z0 cell out1 Cons.prems(5) z]) simp
  qed
  show ?case
  proof (cases e1)
    case (Some e)
    then have "dat' = dat1" "bv' = bv1"
      using Cons.prems(1) r by (auto simp: Value_def bI_def dI_def Let_def)
    then show ?thesis using fr1 by simp
  next
    case None
    have "0 \<le> z0 + 1" "z0 + 1 \<le> sz * (sy * (sx * w))" using z0 szle by linarith+
    then have zeq: "i32 (z0 + 1) = z0 + 1" using tot by (intro i32_id) auto
    have rest: "forE ys (YZ_body PutOp w (sx * w) (sy * (sx * w)) dX [x0, y0, zb] dBeg dEnd) (z0 + 1, dat1, bv1)
                  = (err, (z', dat', bv'))"
      using Cons.prems(1) r None by (auto simp: Value_def bI_def dI_def Let_def zeq)
    have p1: "0 \<le> z0 + 1" using z0 by simp
    have p2: "z0 + 1 + int (length ys) \<le> sz" using Cons.prems(3) by simp
    have p3: "\<not> (x = x0 \<and> y0 \<le> y \<and> y \<le> y0 + (Value dEnd 1 - Value dBeg 1)
                    \<and> z0 + 1 \<le> z \<and> z < z0 + 1 + int (length ys))"
      using Cons.prems(4) by auto
    have p4: "nat (z * (sy * (sx * w)) + y * (sx * w) + x * w + k) < length bv1"
      using Cons.prems(5) fr1 by simp
    have "dat' = dat1 \<and> length bv' = length bv1
         \<and> bv' ! nat (z * (sy * (sx * w)) + y * (sx * w) + x * w + k)
           = bv1 ! nat (z * (sy * (sx * w)) + y * (sx * w) + x * w + k)"
      using Cons.IH [OF _ p1 p2 p3 p4] rest fr1 by simp
    then show ?thesis using fr1 by simp
  qed
qed

lemma forE_Vol3d_inner_put:
  "forE ys (Vol3d_inner PutOp bX bY dX dY blockOffset dataOffset bytes blockZ dataZ) (blockY, dat, bv)
     = (err, (blockY', dat', bv')) \<Longrightarrow> bv' = bv"
proof (induction ys arbitrary: blockY dat)
  case Nil
  then show ?case by simp
next
  case (Cons y ys)
  then show ?case
    by (auto simp: Let_def split: prod.splits option.splits)
qed

lemma forE_Vol3d_body_put:
  "forE zs (Vol3d_body PutOp bX bY dX dY blockOffset dataOffset bytes bBeg dBeg dEnd) (blockZ, dat, bv)
     = (err, (blockZ', dat', bv')) \<Longrightarrow> bv' = bv"
proof (induction zs arbitrary: blockZ dat)
  case Nil
  then show ?case by simp
next
  case (Cons z zs)
  then show ?case
    by (auto simp: Let_def split: prod.splits option.splits dest: forE_Vol3d_inner_put)
qed

lemma shapes_distinct:
  "XY \<noteq> XZ" "XY \<noteq> YZ" "XY \<noteq> Vol3d" "XZ \<noteq> YZ" "XZ \<noteq> Vol3d" "YZ \<noteq> Vol3d"
  "XZ \<noteq> XY" "YZ \<noteq> XY" "Vol3d \<noteq> XY" "YZ \<noteq> XZ" "Vol3d \<noteq> XZ" "Vol3d \<noteq> YZ"
  "ShapeDimensions Vol3d \<noteq> 2"
  by (simp_all add: XY_def XZ_def YZ_def Vol3d_def ShapeDimensions_def)

lemma transfer_put_core:
  assumes ct: "ComputeTransform v block [sx, sy, sz]
                 = Inr \<lparr> blockBeg = [x0, y0, z0], dataBeg = [dbx, dby, dbz], dataEnd = [dex, dey, dez] \<rparr>"
      and run: "transferBlock PutOp v block [sx, sy, sz] = (err, v', block')"
      and w: "BytesPerVoxel (vals v) = w"
      and tot: "sz * (sy * (sx * w)) < 2 ^ 31"
      and sizes: "0 < sx" "0 < sy" "0 < sz"
      and boxx: "0 \<le> x0" "0 \<le> dex - dbx" "x0 + (dex - dbx) < sx"
      and boxy: "0 \<le> y0" "0 \<le> dey - dby" "y0 + (dey - dby) < sy"
      and boxz: "0 \<le> z0" "0 \<le> dez - dbz" "z0 + (dez - dbz) < sz"
      and cell: "0 \<le> k" "k < w" "0 \<le> x" "x < sx" "0 \<le> y" "y < sy"
      and z: "0 \<le> z"
      and out: "\<not> (x0 \<le> x \<and> x \<le> x0 + (dex - dbx) \<and> y0 \<le> y \<and> y \<le> y0 + (dey - dby)
                    \<and> z0 \<le> z \<and> z \<le> z0 + (dez - dbz))"
      and i: "nat (z * (sy * (sx * w)) + y * (sx * w) + x * w + k) < length (V block)"
  shows "length (V block') = length (V block)
         \<and> V block' ! nat (z * (sy * (sx * w)) + y * (sx * w) + x * w + k)
           = V block ! nat (z * (sy * (sx * w)) + y * (sx * w) + x * w + k)"
proof -
  define s where "s = Geometry_DataShape (Geometry v)"
  define nx where "nx = dex - dbx + 1"
  define bI where "bI = z0 * (sy * (sx * w)) + y0 * (sx * w) + x0 * w"
  have wpos: "0 < w" using cell by simp
  have nx: "0 \<le> nx" "x0 + nx \<le> sx" using boxx by (auto simp: nx_def)
  have a0: "0 \<le> x0 * w" using boxx wpos by (simp add: mult_nonneg_nonneg)
  have a2: "0 \<le> nx * w" using nx wpos by (simp add: mult_nonneg_nonneg)
  have "x0 * w + nx * w = (x0 + nx) * w" by (simp add: algebra_simps)
  also have "\<dots> \<le> sx * w" using nx wpos by (intro mult_right_mono) auto
  finally have a1: "x0 * w + nx * w \<le> sx * w" .
  have a3: "x0 * w \<le> sx * w" "nx * w \<le> sx * w" using a0 a1 a2 by auto
  have y0s: "y0 < sy" and z0s: "z0 < sz" using boxy boxz by auto
  have bXpos: "0 < sx * w" using sizes wpos by simp
  have bYpos: "0 < sy * (sx * w)" using sizes bXpos by simp
  have "sx * w = 1 * (sx * w)" by simp
  also have "\<dots> \<le> sy * (sx * w)" using sizes bXpos by (intro mult_right_mono) auto
  finally have bXle: "sx * w \<le> sy * (sx * w)" .
  have "sy * (sx * w) = 1 * (sy * (sx * w))" by simp
  also have "\<dots> \<le> sz * (sy * (sx * w))" using sizes bYpos by (intro mult_right_mono) auto
  finally have bYle: "sy * (sx * w) \<le> sz * (sy * (sx * w))" .
  have bXeq: "i32 (sx * w) = sx * w"
    using bXpos bXle bYle tot by (intro i32_id) auto
  have bYeq: "i32 (sy * (sx * w)) = sy * (sx * w)"
    using bYpos bYle tot by (intro i32_id) auto
  have "0 \<le> bI" "bI \<le> sz * (sy * (sx * w))"
    using offs_bounds [OF boxz(1) z0s boxy(1) y0s a0 a3(1)] by (auto simp: bI_def)
  then have bIeq: "i32 (z0 * (sy * (sx * w)) + y0 * (sx * w) + x0 * w) = bI"
    using tot unfolding bI_def by (intro i32_id) auto
  have nxeq: "i32 ((dex - dbx + 1) * w) = nx * w"
    using a2 a3 bXle bYle tot unfolding nx_def by (intro i32_id) auto
  have ns: "\<not> (3 < NumDims [sx, sy, sz])" "\<not> NumDims [sx, sy, sz] < 2" "\<not> NumDims [sx, sy, sz] < 3"
    by (simp_all add: NumDims_def)
  have vals: "Value [sx, sy, sz] 0 = sx" "Value [sx, sy, sz] 1 = sy"
     "Value [x0, y0, z0] 0 = x0" "Value [x0, y0, z0] 1 = y0" "Value [x0, y0, z0] 2 = z0"
     "Value [dbx, dby, dbz] 0 = dbx" "Value [dbx, dby, dbz] 1 = dby" "Value [dbx, dby, dbz] 2 = dbz"
     "Value [dex, dey, dez] 0 = dex" "Value [dex, dey, dez] 1 = dey" "Value [dex, dey, dez] 2 = dez"
    by (simp_all add: Value_def)
  note tb = transferBlock_def [of PutOp v block "[sx, sy, sz]", unfolded ct Let_def, simplified ns if_False sum.case OpBounds.simps w bXeq bYeq vals, folded s_def]
  consider (xy) "s = XY" | (xz) "s = XZ" | (yz) "s = YZ" | (vol) "s = Vol3d"
    | (other) "s \<noteq> XY" "s \<noteq> XZ" "s \<noteq> YZ" "s \<noteq> Vol3d"
    by blast
  then show ?thesis
  proof cases
    case xy
    define R where "R = rows PutOp dby dey (nx * w) (sx * w) (stride v) bI
                          (i32 (dby * stride v + dbx * w)) (data v, V block)"
    have "transferBlock PutOp v block [sx, sy, sz]
            = (fst R, v\<lparr> data := fst (snd R) \<rparr>, block\<lparr> V := snd (snd R) \<rparr>)"
      unfolding tb by (simp add: xy Equals_iff bIeq nxeq R_def)
    then have vb: "V block' = snd (snd R)" using run by auto
    have r: "rows PutOp dby dey (nx * w) (sx * w) (stride v)
               (z0 * (sy * (sx * w)) + y0 * (sx * w) + x0 * w)
               (i32 (dby * stride v + dbx * w)) (data v, V block) = (fst R, (fst (snd R), snd (snd R)))"
      by (simp add: R_def bI_def)
    have o: "\<not> (z = z0 \<and> y0 \<le> y \<and> y \<le> y0 + (dey - dby) \<and> x0 \<le> x \<and> x < x0 + nx)"
      using out boxz by (auto simp: nx_def)
    show ?thesis
      using rows_put_y [OF r tot boxx(1) nx boxy(1,3) boxz(1) z0s cell o i z] vb by simp
  next
    case xz
    define R where "R = rows PutOp dbz dez (nx * w) (sy * (sx * w)) (stride v) bI
                          (i32 (dbz * stride v + dbx * w)) (data v, V block)"
    have "transferBlock PutOp v block [sx, sy, sz]
            = (fst R, v\<lparr> data := fst (snd R) \<rparr>, block\<lparr> V := snd (snd R) \<rparr>)"
      unfolding tb by (simp add: xz Equals_iff shapes_distinct bIeq nxeq R_def)
    then have vb: "V block' = snd (snd R)" using run by auto
    have r: "rows PutOp dbz dez (nx * w) (sy * (sx * w)) (stride v)
               (z0 * (sy * (sx * w)) + y0 * (sx * w) + x0 * w)
               (i32 (dbz * stride v + dbx * w)) (data v, V block) = (fst R, (fst (snd R), snd (snd R)))"
      by (simp add: R_def bI_def)
    have o: "\<not> (y = y0 \<and> z0 \<le> z \<and> z \<le> z0 + (dez - dbz) \<and> x0 \<le> x \<and> x < x0 + nx)"
      using out boxy by (auto simp: nx_def)
    show ?thesis
      using rows_put_z [OF r tot boxx(1) nx boxy(1) y0s boxz(1,3) cell o i z] vb by simp
  next
    case yz
    define R where "R = forE [dbz..dez]
          (YZ_body PutOp w (sx * w) (sy * (sx * w)) (stride v) [x0, y0, z0] [dbx, dby, dbz] [dex, dey, dez])
          (z0, data v, V block)"
    have "transferBlock PutOp v block [sx, sy, sz]
            = (fst R, v\<lparr> data := fst (snd (snd R)) \<rparr>, block\<lparr> V := snd (snd (snd R)) \<rparr>)"
      unfolding tb by (simp add: yz Equals_iff shapes_distinct R_def split: prod.splits)
    then have vb: "V block' = snd (snd (snd R))" using run by auto
    have r: "forE [dbz..dez]
          (YZ_body PutOp w (sx * w) (sy * (sx * w)) (stride v) [x0, y0, z0] [dbx, dby, dbz] [dex, dey, dez])
          (z0, data v, V block) = (fst R, (fst (snd R), fst (snd (snd R)), snd (snd (snd R))))"
      by (simp add: R_def)
    have x0s: "x0 < sx" using boxx by simp
    have yb: "y0 + (Value [dex, dey, dez] 1 - Value [dbx, dby, dbz] 1) < sy"
      using boxy by (simp add: Value_def)
    have zb: "z0 + int (length [dbz..dez]) \<le> sz" using boxz by simp
    have o: "\<not> (x = x0 \<and> y0 \<le> y \<and> y \<le> y0 + (Value [dex, dey, dez] 1 - Value [dbx, dby, dbz] 1)
                    \<and> z0 \<le> z \<and> z < z0 + int (length [dbz..dez]))"
      using out boxx boxz by (auto simp: Value_def)
    show ?thesis
      using forE_YZ_put [OF r tot sizes(1,2) boxx(1) x0s boxy(1) yb boxz(1) zb cell o i z] vb by simp
  next
    case vol
    define R where "R = forE [dbz..dez]
          (Vol3d_body PutOp (sx * w) (sy * (sx * w))
             (i32 (Value (Size (Geometry v)) 0 * w))
             (i32 (Value (Size (Geometry v)) 1 * i32 (Value (Size (Geometry v)) 0 * w)))
             (i32 (x0 * w)) (i32 (dbx * w)) (i32 ((dex - dbx + 1) * w))
             [x0, y0, z0] [dbx, dby, dbz] [dex, dey, dez])
          (z0, data v, V block)"
    obtain e bz' d' b' where Re: "R = (e, (bz', d', b'))"
      using prod_cases4 by blast
    have "b' = V block"
      using forE_Vol3d_body_put [OF Re [unfolded R_def]] .
    then have "snd (snd (snd R)) = V block" by (simp add: Re)
    moreover have "V (snd (snd (transferBlock PutOp v block [sx, sy, sz]))) = V block
          \<or> V (snd (snd (transferBlock PutOp v block [sx, sy, sz]))) = snd (snd (snd R))"
      unfolding tb by (simp add: vol Equals_iff shapes_distinct R_def split: prod.splits)
    ultimately have "V block' = V block" using run by auto
    then show ?thesis by simp
  next
    case other
    have "V (snd (snd (transferBlock PutOp v block [sx, sy, sz]))) = V block"
      unfolding tb by (simp add: other Equals_iff)
    then have "V block' = V block" using run by auto
    then show ?thesis by simp
  qed
qed

lemma ComputeTransform_3d:
  assumes "K block = DataKey dset dat ver [cx, cy, cz]"
      and "StartPoint (Geometry v) = [ax, ay, az]"
      and "EndPoint (Geometry v) = [ex, ey, ez]"
  shows "ComputeTransform v block [sx, sy, sz] =
     Inr \<lparr> blockBeg = [max ax (cx * sx) - cx * sx, max ay (cy * sy) - cy * sy, max az (cz * sz) - cz * sz],
           dataBeg = [max ax (cx * sx) - ax, max ay (cy * sy) - ay, max az (cz * sz) - az],
           dataEnd = [min ex (cx * sx + sx - 1) - ax, min ey (cy * sy + sy - 1) - ay,
                      min ez (cz * sz + sz - 1) - az] \<rparr>"
  using assms
  by (simp add: ComputeTransform_def NumDims_def FirstPoint_def LastPoint_def
        Point_Max_def Point_Min_def Point_Sub_def Let_def)

text \<open>
  C7.  A block with coordinate \<open>(cx, cy, cz)\<close> and a view from \<open>(ax, ay, az)\<close> to
  \<open>(ex, ey, ez)\<close> that intersect; \<open>(x, y, z)\<close> is a voxel of the block and \<open>k\<close> one
  of its bytes.  When the voxel is outside the view's region, the write of the view
  into the block leaves that byte as it was (and the buffer keeps its length),
  whether the write ends normally or with a panic.  The block's byte size fits an
  \<open>int32\<close>, as the index arithmetic of \<open>transferBlock\<close> needs.
\<close>

theorem C7_write_leaves_bytes_outside_view:
  assumes run: "WriteToBlock v block [sx, sy, sz] = (err, v', block')"
      and key: "K block = DataKey dset dat ver [cx, cy, cz]"
      and start: "StartPoint (Geometry v) = [ax, ay, az]"
      and endp: "EndPoint (Geometry v) = [ex, ey, ez]"
      and w: "BytesPerVoxel (vals v) = w"
      and sizes: "0 < sx" "0 < sy" "0 < sz" "sx * sy * sz * w < 2 ^ 31"
      and meet: "max ax (cx * sx) \<le> min ex (cx * sx + sx - 1)"
                "max ay (cy * sy) \<le> min ey (cy * sy + sy - 1)"
                "max az (cz * sz) \<le> min ez (cz * sz + sz - 1)"
      and cell: "0 \<le> x" "x < sx" "0 \<le> y" "y < sy" "0 \<le> z" "z < sz" "0 \<le> k" "k < w"
      and out: "\<not> (ax \<le> cx * sx + x \<and> cx * sx + x \<le> ex
                   \<and> ay \<le> cy * sy + y \<and> cy * sy + y \<le> ey
                   \<and> az \<le> cz * sz + z \<and> cz * sz + z \<le> ez)"
      and i: "byte_offset [sx, sy, sz] w x y z k < length (V block)"
  shows "length (V block') = length (V block)
         \<and> V block' ! byte_offset [sx, sy, sz] w x y z k = V block ! byte_offset [sx, sy, sz] w x y z k"
proof -
  have idx: "byte_offset [sx, sy, sz] w x y z k = nat (z * (sy * (sx * w)) + y * (sx * w) + x * w + k)"
    by (simp add: byte_offset_def Value_def algebra_simps)
  have tot: "sz * (sy * (sx * w)) < 2 ^ 31"
    using sizes(4) by (simp add: mult.assoc mult.left_commute mult.commute)
  have run': "transferBlock PutOp v block [sx, sy, sz] = (err, v', block')"
    using run by (simp add: WriteToBlock_def)
  have bx: "0 \<le> max ax (cx * sx) - cx * sx"
           "0 \<le> min ex (cx * sx + sx - 1) - ax - (max ax (cx * sx) - ax)"
           "max ax (cx * sx) - cx * sx + (min ex (cx * sx + sx - 1) - ax - (max ax (cx * sx) - ax)) < sx"
    using meet(1) by auto
  have by': "0 \<le> max ay (cy * sy) - cy * sy"
           "0 \<le> min ey (cy * sy + sy - 1) - ay - (max ay (cy * sy) - ay)"
           "max ay (cy * sy) - cy * sy + (min ey (cy * sy + sy - 1) - ay - (max ay (cy * sy) - ay)) < sy"
    using meet(2) by auto
  have bz: "0 \<le> max az (cz * sz) - cz * sz"
           "0 \<le> min ez (cz * sz + sz - 1) - az - (max az (cz * sz) - az)"
           "max az (cz * sz) - cz * sz + (min ez (cz * sz + sz - 1) - az - (max az (cz * sz) - az)) < sz"
    using meet(3) by auto
  have o: "\<not> (max ax (cx * sx) - cx * sx \<le> x
             \<and> x \<le> max ax (cx * sx) - cx * sx + (min ex (cx * sx + sx - 1) - ax - (max ax (cx * sx) - ax))
             \<and> max ay (cy * sy) - cy * sy \<le> y
             \<and> y \<le> max ay (cy * sy) - cy * sy + (min ey (cy * sy + sy - 1) - ay - (max ay (cy * sy) - ay))
             \<and> max az (cz * sz) - cz * sz \<le> z
             \<and> z \<le> max az (cz * sz) - cz * sz + (min ez (cz * sz + sz - 1) - az - (max az (cz * sz) - az)))"
    using out by auto
  show ?thesis
    unfolding idx
    by (rule transfer_put_core [OF ComputeTransform_3d [OF key start endp] run' w tot sizes(1,2,3)
          bx by' bz cell(7,8,1,2,3,4,5) o i [unfolded idx]])
qed

theorem C7_write_leaves_bytes_outside_view_witness:
  "WriteToBlock
     \<lparr> Geometry = OrthogSlice XY [1, 1, 1] (2, 2) [2, 2, 1],
       vals = [\<lparr> DataType = ''uint8'', Label = ''grayscale'' \<rparr>],
       data = [1, 2, 3, 4], stride = 2, byteOrder = False \<rparr>
     \<lparr> K = DataKey 1 1 1 [0, 0, 0],
       V = [101, 108, 115, 122, 129, 136, 143, 150, 157, 164, 171, 178, 185, 192, 199, 206,
            213, 220, 227, 234, 241, 248, 255, 6, 13, 20, 27, 34, 41, 48, 55, 62] \<rparr> [4, 4, 2]
   = (None,
     \<lparr> Geometry = OrthogSlice XY [1, 1, 1] (2, 2) [2, 2, 1],
       vals = [\<lparr> DataType = ''uint8'', Label = ''grayscale'' \<rparr>],
       data = [1, 2, 3, 4], stride = 2, byteOrder = False \<rparr>,
     \<lparr> K = DataKey 1 1 1 [0, 0, 0],
       V = [101, 108, 115, 122, 129, 136, 143, 150, 157, 164, 171, 178, 185, 192, 199, 206,
            213, 220, 227, 234, 241, 1, 2, 6, 13, 3, 4, 34, 41, 48, 55, 62] \<rparr>)
   \<and> length [101, 108, 115, 122, 129, 136, 143, 150, 157, 164, 171, 178, 185, 192, 199, 206,
            213, 220, 227, 234, 241, 1, 2, 6, 13, 3, 4, 34, 41, 48, 55, 62 :: byte]
     = length [101, 108, 115, 122, 129, 136, 143, 150, 157, 164, 171, 178, 185, 192, 199, 206,
            213, 220, 227, 234, 241, 248, 255, 6, 13, 20, 27, 34, 41, 48, 55, 62 :: byte]
   \<and> [101, 108, 115, 122, 129, 136, 143, 150, 157, 164, 171, 178, 185, 192, 199, 206,
            213, 220, 227, 234, 241, 1, 2, 6, 13, 3, 4, 34, 41, 48, 55, 62 :: byte]
         ! byte_offset [4, 4, 2] 1 3 1 1 0
     = [101, 108, 115, 122, 129, 136, 143, 150, 157, 164, 171, 178, 185, 192, 199, 206,
            213, 220, 227, 234, 241, 248, 255, 6, 13, 20, 27, 34, 41, 48, 55, 62 :: byte]
         ! byte_offset [4, 4, 2] 1 3 1 1 0"
proof -
  let ?v = "\<lparr> Geometry = OrthogSlice XY [1, 1, 1] (2, 2) [2, 2, 1],
       vals = [\<lparr> DataType = ''uint8'', Label = ''grayscale'' \<rparr>],
       data = [1, 2, 3, 4], stride = 2, byteOrder = False \<rparr>"
  let ?b = "\<lparr> K = DataKey 1 1 1 [0, 0, 0],
       V = [101, 108, 115, 122, 129, 136, 143, 150, 157, 164, 171, 178, 185, 192, 199, 206,
            213, 220, 227, 234, 241, 248, 255, 6, 13, 20, 27, 34, 41, 48, 55, 62] \<rparr>"
  let ?b' = "\<lparr> K = DataKey 1 1 1 [0, 0, 0],
       V = [101, 108, 115, 122, 129, 136, 143, 150, 157, 164, 171, 178, 185, 192, 199, 206,
            213, 220, 227, 234, 241, 1, 2, 6, 13, 3, 4, 34, 41, 48, 55, 62] \<rparr>"
  have run: "WriteToBlock ?v ?b [4, 4, 2] = (None, ?v, ?b')"
    by code_simp
  have key: "K ?b = DataKey 1 1 1 [0, 0, 0]" by simp
  have start: "StartPoint (Geometry ?v) = [1, 1, 1]" by simp
  have endp: "EndPoint (Geometry ?v) = [2, 2, 1]" by simp
  have w: "BytesPerVoxel (vals ?v) = 1"
    by (simp add: BytesPerVoxel_def typeBytes_def i32_def)
  have s1: "(0::int) < 4" and s2: "(0::int) < 4" and s3: "(0::int) < 2"
    and s4: "(4::int) * 4 * 2 * 1 < 2 ^ 31" by simp_all
  have m1: "max (1::int) (0 * 4) \<le> min 2 (0 * 4 + 4 - 1)"
    and m2: "max (1::int) (0 * 4) \<le> min 2 (0 * 4 + 4 - 1)"
    and m3: "max (1::int) (0 * 2) \<le> min 1 (0 * 2 + 2 - 1)" by simp_all
  have c1: "(0::int) \<le> 3" and c2: "(3::int) < 4" and c3: "(0::int) \<le> 1" and c4: "(1::int) < 4"
    and c5: "(0::int) \<le> 1" and c6: "(1::int) < 2" and c7: "(0::int) \<le> 0" and c8: "(0::int) < 1"
    by simp_all
  have out: "\<not> ((1::int) \<le> 0 * 4 + 3 \<and> 0 * 4 + 3 \<le> (2::int)
                   \<and> (1::int) \<le> 0 * 4 + 1 \<and> 0 * 4 + 1 \<le> (2::int)
                   \<and> (1::int) \<le> 0 * 2 + 1 \<and> 0 * 2 + 1 \<le> (1::int))" by simp
  have i: "byte_offset [4, 4, 2] 1 3 1 1 0 < length (V ?b)"
    by (simp add: byte_offset_def Value_def)
  show ?thesis
    using run
      C7_write_leaves_bytes_outside_view [OF run key start endp w s1 s2 s3 s4 m1 m2 m3
        c1 c2 c3 c4 c5 c6 c7 c8 out i]
    by simp
qed

section \<open>Put followed by get\<close>














section \<open>Version mutexes\<close>

lemma nid_eq_iff: "nid c = nid c' \<longleftrightarrow> triple c = triple c'"
  by (auto simp: nid_def triple_def)

lemma VersionMutex_step:
  assumes "VersionMutex d ver st = (m, st')" "mutexes_ok st"
  shows "mutexes_ok st'"
    and "versionMutexes st' (nid (d, ver)) = Some m"
    and "\<And>k x. versionMutexes st k = Some x \<Longrightarrow> versionMutexes st' k = Some x"
proof -
  show "mutexes_ok st'"
    using assms
    by (fastforce simp: VersionMutex_def mutexes_ok_def Let_def less_Suc_eq split: option.splits if_splits)
  show "versionMutexes st' (nid (d, ver)) = Some m"
    using assms by (auto simp: VersionMutex_def nid_def Let_def split: option.splits)
  show "\<And>k x. versionMutexes st k = Some x \<Longrightarrow> versionMutexes st' k = Some x"
    using assms by (auto simp: VersionMutex_def Let_def split: option.splits)
qed

lemma VersionMutex_calls_sound:
  assumes "VersionMutex_calls cs st = (ms, st')" "mutexes_ok st"
  shows "mutexes_ok st' \<and> length ms = length cs
         \<and> (\<forall>i < length cs. versionMutexes st' (nid (cs ! i)) = Some (ms ! i))
         \<and> (\<forall>k x. versionMutexes st k = Some x \<longrightarrow> versionMutexes st' k = Some x)"
  using assms
proof (induction cs arbitrary: st ms st')
  case Nil
  then show ?case by simp
next
  case (Cons c cs)
  obtain m st1 where step: "VersionMutex (fst c) (snd c) st = (m, st1)"
    by (cases "VersionMutex (fst c) (snd c) st")
  obtain ms1 st2 where rest: "VersionMutex_calls cs st1 = (ms1, st2)"
    by (cases "VersionMutex_calls cs st1")
  have res: "ms = m # ms1" "st' = st2"
    using Cons.prems(1) step rest by auto
  have ok1: "mutexes_ok st1"
    and at1: "versionMutexes st1 (nid (fst c, snd c)) = Some m"
    and mono1: "\<And>k x. versionMutexes st k = Some x \<Longrightarrow> versionMutexes st1 k = Some x"
    using VersionMutex_step [OF step Cons.prems(2)] by auto
  have ih: "mutexes_ok st2 \<and> length ms1 = length cs
         \<and> (\<forall>i < length cs. versionMutexes st2 (nid (cs ! i)) = Some (ms1 ! i))
         \<and> (\<forall>k x. versionMutexes st1 k = Some x \<longrightarrow> versionMutexes st2 k = Some x)"
    by (rule Cons.IH [OF rest ok1])
  have head: "versionMutexes st2 (nid c) = Some m"
    using at1 ih by simp
  have "\<forall>i < length (c # cs). versionMutexes st2 (nid ((c # cs) ! i)) = Some ((m # ms1) ! i)"
  proof (intro allI impI)
    fix i assume "i < length (c # cs)"
    then show "versionMutexes st2 (nid ((c # cs) ! i)) = Some ((m # ms1) ! i)"
      using head ih by (cases i) auto
  qed
  then show ?case
    using ih mono1 res by auto
qed

lemma mutexes_ok_init: "mutexes_ok init_mutexes"
  by (simp add: mutexes_ok_def init_mutexes_def)

text \<open>
  C10.  In a sequence of calls of \<open>VersionMutex\<close> from the initial (empty) map, two
  calls return the same mutex pointer iff they were made with the same
  (dataset, data, version) triple.  The calls run one after the other.
\<close>

theorem C10_VersionMutex_same_iff_same_triple:
  assumes "VersionMutex_calls cs init_mutexes = (ms, st)" "i < length cs" "j < length cs"
  shows "ms ! i = ms ! j \<longleftrightarrow> triple (cs ! i) = triple (cs ! j)"
proof -
  have s: "mutexes_ok st"
      "versionMutexes st (nid (cs ! i)) = Some (ms ! i)"
      "versionMutexes st (nid (cs ! j)) = Some (ms ! j)"
    using VersionMutex_calls_sound [OF assms(1) mutexes_ok_init] assms(2,3) by auto
  show ?thesis
  proof
    assume "ms ! i = ms ! j"
    then have "nid (cs ! i) = nid (cs ! j)"
      using s unfolding mutexes_ok_def by metis
    then show "triple (cs ! i) = triple (cs ! j)" by (simp add: nid_eq_iff)
  next
    assume "triple (cs ! i) = triple (cs ! j)"
    then have "nid (cs ! i) = nid (cs ! j)" by (simp add: nid_eq_iff)
    then show "ms ! i = ms ! j" using s by simp
  qed
qed

theorem C10_VersionMutex_same_iff_same_triple_witness:
  "VersionMutex_calls [(\<lparr> ID = 1, DsetID = 1 \<rparr>, 1), (\<lparr> ID = 2, DsetID = 1 \<rparr>, 1), (\<lparr> ID = 1, DsetID = 1 \<rparr>, 1)]
      init_mutexes
    = ([0, 1, 0],
       \<lparr> versionMutexes = [\<lparr> Dataset = 1, Data = 1, Version = 1 \<rparr> \<mapsto> 0,
                            \<lparr> Dataset = 1, Data = 2, Version = 1 \<rparr> \<mapsto> 1],
         allocated = 2 \<rparr>)
   \<and> ([0, 1, 0 :: nat] ! 0 = [0, 1, 0] ! 2
        \<longleftrightarrow> triple ([(\<lparr> ID = 1, DsetID = 1 \<rparr>, 1 :: 16 word), (\<lparr> ID = 2, DsetID = 1 \<rparr>, 1), (\<lparr> ID = 1, DsetID = 1 \<rparr>, 1)] ! 0)
          = triple ([(\<lparr> ID = 1, DsetID = 1 \<rparr>, 1 :: 16 word), (\<lparr> ID = 2, DsetID = 1 \<rparr>, 1), (\<lparr> ID = 1, DsetID = 1 \<rparr>, 1)] ! 2))
   \<and> ([0, 1, 0 :: nat] ! 0 = [0, 1, 0] ! 1
        \<longleftrightarrow> triple ([(\<lparr> ID = 1, DsetID = 1 \<rparr>, 1 :: 16 word), (\<lparr> ID = 2, DsetID = 1 \<rparr>, 1), (\<lparr> ID = 1, DsetID = 1 \<rparr>, 1)] ! 0)
          = triple ([(\<lparr> ID = 1, DsetID = 1 \<rparr>, 1 :: 16 word), (\<lparr> ID = 2, DsetID = 1 \<rparr>, 1), (\<lparr> ID = 1, DsetID = 1 \<rparr>, 1)] ! 1))"
proof -
  have run: "VersionMutex_calls [(\<lparr> ID = 1, DsetID = 1 \<rparr>, 1), (\<lparr> ID = 2, DsetID = 1 \<rparr>, 1), (\<lparr> ID = 1, DsetID = 1 \<rparr>, 1)]
      init_mutexes
    = ([0, 1, 0],
       \<lparr> versionMutexes = [\<lparr> Dataset = 1, Data = 1, Version = 1 \<rparr> \<mapsto> 0,
                            \<lparr> Dataset = 1, Data = 2, Version = 1 \<rparr> \<mapsto> 1],
         allocated = 2 \<rparr>)"
    by (simp add: VersionMutex_def init_mutexes_def Let_def)
  have l0: "0 < length [(\<lparr> ID = 1, DsetID = 1 \<rparr>, 1 :: 16 word), (\<lparr> ID = 2, DsetID = 1 \<rparr>, 1), (\<lparr> ID = 1, DsetID = 1 \<rparr>, 1)]" by simp
  have l1: "1 < length [(\<lparr> ID = 1, DsetID = 1 \<rparr>, 1 :: 16 word), (\<lparr> ID = 2, DsetID = 1 \<rparr>, 1), (\<lparr> ID = 1, DsetID = 1 \<rparr>, 1)]" by simp
  have l2: "2 < length [(\<lparr> ID = 1, DsetID = 1 \<rparr>, 1 :: 16 word), (\<lparr> ID = 2, DsetID = 1 \<rparr>, 1), (\<lparr> ID = 1, DsetID = 1 \<rparr>, 1)]" by simp
  show ?thesis
    using run C10_VersionMutex_same_iff_same_triple [OF run l0 l2]
          C10_VersionMutex_same_iff_same_triple [OF run l0 l1]
    by blast
qed

end
